theory Spec2Isabelle
  imports Main
begin

section \<open>rebuild-gobin: the inventory parser and the rebuild loop of main.go\<close>

text \<open>
  Go strings are byte sequences; they are modelled as \<open>string\<close> (a list of 8-bit
  characters). Every failure of the source is a value: a returned error and a run-time
  panic are both \<open>Inl\<close> of the type \<open>error + 'a\<close>.
\<close>

datatype error =
    ExecError string      \<comment> \<open>an external command could not be run or exited with a failure\<close>
  | OSError string        \<comment> \<open>an error of the operating system, as from \<open>os.MkdirTemp\<close>\<close>
  | SlicePanic            \<comment> \<open>run-time panic: slice bounds out of range\<close>
  | ErrTooLong            \<comment> \<open>bufio.Scanner: token too long\<close>
  | InvalidSpec string    \<comment> \<open>\<open>invalid path@version spec: %q\<close>\<close>

subsection \<open>The functions of package strings that the parser calls\<close>

text \<open>\<open>strings.HasPrefix(s, prefix)\<close>: \<open>len(s) >= len(prefix) && s[:len(prefix)] == prefix\<close>.\<close>

definition HasPrefix :: "string \<Rightarrow> string \<Rightarrow> bool" where
  "HasPrefix s pre = (length pre \<le> length s \<and> take (length pre) s = pre)"

text \<open>\<open>strings.Index(s, substr)\<close>: the index of the first instance of \<open>substr\<close> in \<open>s\<close>,
  or -1 when there is none.\<close>

fun Index :: "string \<Rightarrow> string \<Rightarrow> int" where
  "Index [] substr = (if substr = [] then 0 else - 1)"
| "Index (c # cs) substr =
     (if HasPrefix (c # cs) substr then 0
      else (let i = Index cs substr in if i < 0 then - 1 else i + 1))"

text \<open>The slice expression \<open>s[i:]\<close>: it panics unless \<open>0 <= i <= len(s)\<close>.\<close>

definition slice_from :: "string \<Rightarrow> int \<Rightarrow> error + string" where
  "slice_from s i = (if 0 \<le> i \<and> i \<le> int (length s) then Inr (drop (nat i) s) else Inl SlicePanic)"

text \<open>
  \<open>strings.Fields(s)\<close> splits \<open>s\<close> around each run of white space, as
  \<open>unicode.IsSpace\<close> defines it, and returns the non-empty pieces. In ASCII the white
  space is tab, line feed, vertical tab, form feed, carriage return and space. Beyond
  ASCII the string is decoded as UTF-8 and the white space is U+0085, U+00A0, U+1680,
  U+2000 to U+200A, U+2028, U+2029, U+202F, U+205F and U+3000. The first byte of each of
  these encodings is a UTF-8 lead byte, which no decoded rune holds in a later position,
  so the decoder stands at a rune boundary wherever one of the encodings occurs, and
  matching the encodings bytewise finds the same runes.
\<close>

definition asciiSpace :: "char \<Rightarrow> bool" where
  "asciiSpace c = (c = CHR 0x09 \<or> c = CHR 0x0A \<or> c = CHR 0x0B \<or> c = CHR 0x0C \<or> c = CHR 0x0D \<or> c = CHR 0x20)"

definition unicodeSpaces :: "string list" where
  "unicodeSpaces =
     [[CHR 0xC2, CHR 0x85], [CHR 0xC2, CHR 0xA0], [CHR 0xE1, CHR 0x9A, CHR 0x80]] @
     map (\<lambda>b. [CHR 0xE2, CHR 0x80, b])
       [CHR 0x80, CHR 0x81, CHR 0x82, CHR 0x83, CHR 0x84, CHR 0x85, CHR 0x86, CHR 0x87,
        CHR 0x88, CHR 0x89, CHR 0x8A, CHR 0xA8, CHR 0xA9, CHR 0xAF] @
     [[CHR 0xE2, CHR 0x81, CHR 0x9F], [CHR 0xE3, CHR 0x80, CHR 0x80]]"

text \<open>The number of bytes of the white-space rune at the head of \<open>s\<close>; 0 when \<open>s\<close> does
  not start with white space.\<close>

definition spaceWidth :: "string \<Rightarrow> nat" where
  "spaceWidth s =
     (case s of
        [] \<Rightarrow> 0
      | c # _ \<Rightarrow>
          if asciiSpace c then 1
          else (case find (HasPrefix s) unicodeSpaces of Some enc \<Rightarrow> length enc | None \<Rightarrow> 0))"

text \<open>The first argument is the field under construction, the second the input left.\<close>

function FieldsFrom :: "string \<Rightarrow> string \<Rightarrow> string list" where
  "FieldsFrom field [] = (if field = [] then [] else [field])"
| "FieldsFrom field (c # cs) =
     (if spaceWidth (c # cs) = 0 then FieldsFrom (field @ [c]) cs
      else (if field = [] then [] else [field]) @ FieldsFrom [] (drop (spaceWidth (c # cs)) (c # cs)))"
  by pat_completeness auto
termination
  by (relation "measure (\<lambda>(field, s). length s)") auto

definition Fields :: "string \<Rightarrow> string list" where
  "Fields s = FieldsFrom [] s"

subsection \<open>bufio.Scanner with the default split function ScanLines\<close>

text \<open>
  The scanner yields the lines of the buffer, each without its line feed and without one
  trailing carriage return; a last line with no line feed is yielded when it is not
  empty. Its buffer grows to \<open>MaxScanTokenSize\<close> bytes at most: a line that does not
  fit there together with its line feed stops the scan, and \<open>Err()\<close> is
  \<open>ErrTooLong\<close>. \<open>scanLines\<close> returns the lines that \<open>Scan()\<close> yields and the final
  value of \<open>Err()\<close>.
\<close>

definition MaxScanTokenSize :: nat where
  "MaxScanTokenSize = 64 * 1024"

definition dropCR :: "string \<Rightarrow> string" where
  "dropCR data = (if data \<noteq> [] \<and> last data = CHR 0x0D then butlast data else data)"

fun scanFrom :: "string \<Rightarrow> string \<Rightarrow> string list \<times> error option" where
  "scanFrom tok [] =
     (if tok = [] then ([], None)
      else if MaxScanTokenSize \<le> length tok then ([], Some ErrTooLong)
      else ([dropCR tok], None))"
| "scanFrom tok (c # cs) =
     (if c = CHR 0x0A then
        (if MaxScanTokenSize \<le> length tok then ([], Some ErrTooLong)
         else (case scanFrom [] cs of (ls, e) \<Rightarrow> (dropCR tok # ls, e)))
      else scanFrom (tok @ [c]) cs)"

definition scanLines :: "string \<Rightarrow> string list \<times> error option" where
  "scanLines buf = scanFrom [] buf"

subsection \<open>The type program and inspectGobin\<close>

record program =
  path :: string
  modVersion :: string
  goVersion :: string

definition valid :: "program \<Rightarrow> bool" where
  "valid p = (path p \<noteq> [] \<and> modVersion p \<noteq> [] \<and> goVersion p \<noteq> [])"

text \<open>The zero value \<open>program{}\<close>.\<close>

definition zeroProgram :: program where
  "zeroProgram = \<lparr>path = [], modVersion = [], goVersion = []\<rparr>"

text \<open>
  One iteration of the loop \<open>for scanner.Scan()\<close> on the line \<open>text\<close>; the state is the
  pair of the local variables \<open>current\<close> and \<open>out\<close>.
\<close>

definition scanStep :: "string \<Rightarrow> string \<Rightarrow> program \<times> program list \<Rightarrow> error + program \<times> program list" where
  "scanStep dir text st =
     (case st of (current, out) \<Rightarrow>
        if HasPrefix text dir then
          (let out' = (if valid current then out @ [current] else out) in
           case slice_from text (Index text '': '' + 2) of
             Inl e \<Rightarrow> Inl e
           | Inr v \<Rightarrow> Inr (\<lparr>path = [], modVersion = [], goVersion = v\<rparr>, out'))
        else
          (let fields = Fields text in
           if length fields = 2 \<and> fields ! 0 = ''path'' then Inr (current\<lparr>path := fields ! 1\<rparr>, out)
           else if 3 \<le> length fields \<and> fields ! 0 = ''mod'' then Inr (current\<lparr>modVersion := fields ! 2\<rparr>, out)
           else Inr (current, out)))"

fun scanLoop :: "string \<Rightarrow> string list \<Rightarrow> program \<times> program list \<Rightarrow> error + program \<times> program list" where
  "scanLoop dir [] st = Inr st"
| "scanLoop dir (text # rest) st =
     (case scanStep dir text st of Inl e \<Rightarrow> Inl e | Inr st' \<Rightarrow> scanLoop dir rest st')"

text \<open>
  \<open>inspectGobin\<close>; \<open>output\<close> is what \<open>exec.CommandContext(ctx, "go", "version", "-m",
  dir).Output()\<close> returned, the buffer or the error.
\<close>

definition inspectGobin :: "string \<Rightarrow> error + string \<Rightarrow> error + program list" where
  "inspectGobin dir output =
     (case output of
        Inl e \<Rightarrow> Inl e
      | Inr buf \<Rightarrow>
          (case scanLines buf of (lines, scanErr) \<Rightarrow>
             (case scanLoop dir lines (zeroProgram, []) of
                Inl e \<Rightarrow> Inl e
              | Inr (current, out) \<Rightarrow>
                  (case scanErr of
                     Some e \<Rightarrow> Inl e
                   | None \<Rightarrow> Inr (if valid current then out @ [current] else out)))))"

subsection \<open>The reading of the parser in the specification\<close>

text \<open>
  The specification describes the parser by the candidates it closes: a boundary line
  closes the current candidate and opens one that holds only the toolchain version, any
  other line may set a field of the current candidate, and the end of the input closes
  the last candidate. \<open>closedCandidates\<close> lists the candidates in the order in which they
  are closed, valid or not. Where the boundary line has no \<open>": "\<close> the new candidate
  takes what the slice expression of the source yields for the index -1 + 2.
\<close>

definition boundaryCandidate :: "string \<Rightarrow> program" where
  "boundaryCandidate text =
     \<lparr>path = [], modVersion = [], goVersion = drop (nat (Index text '': '' + 2)) text\<rparr>"

definition fieldLine :: "string \<Rightarrow> program \<Rightarrow> program" where
  "fieldLine text current =
     (if length (Fields text) = 2 \<and> Fields text ! 0 = ''path'' then current\<lparr>path := Fields text ! 1\<rparr>
      else if 3 \<le> length (Fields text) \<and> Fields text ! 0 = ''mod'' then current\<lparr>modVersion := Fields text ! 2\<rparr>
      else current)"

fun closedCandidates :: "string \<Rightarrow> string list \<Rightarrow> program \<Rightarrow> program list" where
  "closedCandidates dir [] current = [current]"
| "closedCandidates dir (text # rest) current =
     (if HasPrefix text dir then current # closedCandidates dir rest (boundaryCandidate text)
      else closedCandidates dir rest (fieldLine text current))"

text \<open>
  A byte that is neither white space of ASCII nor the first byte of the UTF-8 encoding
  of a white-space rune: no white space starts at such a byte.
\<close>

definition plainByte :: "char \<Rightarrow> bool" where
  "plainByte c = (\<not> asciiSpace c \<and> c \<notin> {CHR 0xC2, CHR 0xE1, CHR 0xE2, CHR 0xE3})"

subsection \<open>The external collaborators\<close>

text \<open>
  What the run observes of the outside: the results of \<open>getGobin()\<close> and \<open>goVersion()\<close>,
  the output of \<open>go version -m dir\<close>, the directory \<open>os.TempDir()\<close>, the outcome of
  \<open>os.MkdirTemp\<close> (an error, or the random part of the new name), how \<open>cmd.String()\<close>
  prints the go command, and the result of \<open>cmd.Run()\<close> for the k-th \<open>go install\<close> of the
  run, by working directory and specification.
\<close>

record world =
  gobinResult :: "error + string"
  versionOutput :: "string \<Rightarrow> error + string"
  goverResult :: "error + string"
  tempRoot :: string
  mkdirResult :: "error + string"
  goCommand :: string
  installResult :: "nat \<Rightarrow> string \<Rightarrow> string \<Rightarrow> error option"

text \<open>What the run does to the outside, in order.\<close>

datatype effect =
    MkdirTemp string            \<comment> \<open>the directory \<open>os.MkdirTemp\<close> created\<close>
  | Println string              \<comment> \<open>a line of \<open>log.Println\<close>\<close>
  | GoInstall string string     \<comment> \<open>\<open>go install spec\<close> run in a working directory\<close>
  | RemoveAll string            \<comment> \<open>the deferred \<open>os.RemoveAll\<close>\<close>

fun isGoInstall :: "effect \<Rightarrow> bool" where
  "isGoInstall (GoInstall d spec) = True"
| "isGoInstall e = False"

fun isMkdirTemp :: "effect \<Rightarrow> bool" where
  "isMkdirTemp (MkdirTemp d) = True"
| "isMkdirTemp e = False"

definition installCount :: "effect list \<Rightarrow> nat" where
  "installCount effs = length (filter isGoInstall effs)"

text \<open>\<open>os.MkdirTemp("", "rebuild-gobin-*")\<close>: the new directory is
  \<open>joinPath(os.TempDir(), "rebuild-gobin-" + random)\<close>.\<close>

definition joinPath :: "string \<Rightarrow> string \<Rightarrow> string" where
  "joinPath d name = (if d \<noteq> [] \<and> last d = CHR ''/'' then d @ name else d @ ''/'' @ name)"

definition osMkdirTemp :: "world \<Rightarrow> error + string" where
  "osMkdirTemp w =
     (case mkdirResult w of
        Inl e \<Rightarrow> Inl e
      | Inr random \<Rightarrow> Inr (joinPath (tempRoot w) (''rebuild-gobin-'' @ random)))"

subsection \<open>rebuild and run\<close>

text \<open>\<open>rebuild(tempDir, spec)\<close>; \<open>effs\<close> are the effects of the run so far.\<close>

definition installEffects :: "world \<Rightarrow> string \<Rightarrow> string \<Rightarrow> effect list" where
  "installEffects w tmp spec =
     [Println (''running: '' @ goCommand w @ '' install '' @ spec), GoInstall tmp spec]"

definition rebuild :: "world \<Rightarrow> string \<Rightarrow> string \<Rightarrow> effect list \<Rightarrow> error option \<times> effect list" where
  "rebuild w tmp spec effs =
     (if spec = [] \<or> CHR ''@'' \<notin> set spec then (Some (InvalidSpec spec), effs)
      else (installResult w (installCount effs) tmp spec, effs @ installEffects w tmp spec))"

text \<open>The local variables of \<open>run\<close> that the loop changes, and the effects so far.\<close>

record runState =
  skipped :: "string list"
  failed :: "string list"
  tempDir :: string
  effects :: "effect list"

definition initState :: runState where
  "initState = \<lparr>skipped = [], failed = [], tempDir = [], effects = []\<rparr>"

text \<open>One iteration of \<open>for _, p := range programs\<close>; \<open>Inl\<close> is the \<open>return err\<close> after
  \<open>os.MkdirTemp\<close>.\<close>

definition runItem :: "world \<Rightarrow> bool \<Rightarrow> string \<Rightarrow> program \<Rightarrow> runState \<Rightarrow> error + runState" where
  "runItem w upgrade gover p st =
     (if \<not> upgrade \<and> goVersion p = gover then Inr st
      else if modVersion p = ''(devel)'' then Inr (st\<lparr>skipped := skipped st @ [path p]\<rparr>)
      else
        (case (if tempDir st = [] then
                 (case osMkdirTemp w of
                    Inl e \<Rightarrow> Inl e
                  | Inr d \<Rightarrow> Inr (st\<lparr>tempDir := d, effects := effects st @ [MkdirTemp d]\<rparr>))
               else Inr st) of
           Inl e \<Rightarrow> Inl e
         | Inr st1 \<Rightarrow>
             (let targetVersion = (if upgrade then ''latest'' else modVersion p) in
              case rebuild w (tempDir st1) (path p @ ''@'' @ targetVersion) (effects st1) of
                (Some e, effs) \<Rightarrow> Inr (st1\<lparr>failed := failed st1 @ [path p], effects := effs\<rparr>)
              | (None, effs) \<Rightarrow> Inr (st1\<lparr>effects := effs\<rparr>))))"

fun runLoop :: "world \<Rightarrow> bool \<Rightarrow> string \<Rightarrow> program list \<Rightarrow> runState \<Rightarrow> error + runState" where
  "runLoop w upgrade gover [] st = Inr st"
| "runLoop w upgrade gover (p # ps) st =
     (case runItem w upgrade gover p st of
        Inl e \<Rightarrow> Inl e
      | Inr st' \<Rightarrow> runLoop w upgrade gover ps st')"

text \<open>The lines that \<open>run\<close> prints after the loop. \<open>log.Println(" ", s)\<close> puts a space
  between its two operands.\<close>

definition report :: "string list \<Rightarrow> string list \<Rightarrow> string list" where
  "report sk fl =
     (if length sk = 0 \<and> length fl = 0 then []
      else
        (if length sk \<noteq> 0
         then ''Skipped the following programs because of the (devel) module version:'' #
              map (\<lambda>s. ''  '' @ s) sk
         else []) @
        (if length fl \<noteq> 0
         then ''There were errors installing the following modules, see the full log above:'' #
              map (\<lambda>s. ''  '' @ s) fl
         else []))"

text \<open>\<open>run\<close> from the declaration of \<open>skipped\<close> on: the loop, the report and the deferred
  removal of the temporary directory. The result is the returned error and the effects.\<close>

definition runPrograms :: "world \<Rightarrow> bool \<Rightarrow> string \<Rightarrow> program list \<Rightarrow> error option \<times> effect list" where
  "runPrograms w upgrade gover programs =
     (case runLoop w upgrade gover programs initState of
        Inl e \<Rightarrow> (Some e, [])
      | Inr st \<Rightarrow>
          (None,
           effects st @ map Println (report (skipped st) (failed st)) @
           (if tempDir st = [] then [] else [RemoveAll (tempDir st)])))"

definition run :: "world \<Rightarrow> bool \<Rightarrow> error option \<times> effect list" where
  "run w upgrade =
     (case gobinResult w of
        Inl e \<Rightarrow> (Some e, [])
      | Inr gobin \<Rightarrow>
          (case inspectGobin gobin (versionOutput w gobin) of
             Inl e \<Rightarrow> (Some e, [])
           | Inr programs \<Rightarrow>
               (case goverResult w of
                  Inl e \<Rightarrow> (Some e, [])
                | Inr gover \<Rightarrow> runPrograms w upgrade gover programs)))"

subsection \<open>The reading of the planner and the executor in the specification\<close>

text \<open>
  The specification names four actions and decides between them by four rules, in
  order; the second component of \<open>planItem\<close> is the \<open>targetVersionSpec\<close>, empty where the
  action is no rebuild. \<open>executeItem\<close> is what the specification's executor does with a
  plan item: nothing for Skip, an entry in the skipped sequence for SkipUnrebuildable,
  and for a rebuild the scratch directory on first need, the install action on
  \<open>path@targetVersionSpec\<close> and an entry in the failed sequence when it fails.
\<close>

datatype action = Skip | SkipUnrebuildable | RebuildLatest | RebuildPinned

definition planItem :: "bool \<Rightarrow> string \<Rightarrow> program \<Rightarrow> action \<times> string" where
  "planItem upgrade activeToolchainVersion record =
     (if \<not> upgrade \<and> goVersion record = activeToolchainVersion then (Skip, [])
      else if modVersion record = ''(devel)'' then (SkipUnrebuildable, [])
      else if upgrade then (RebuildLatest, ''latest'')
      else (RebuildPinned, modVersion record))"

definition isRebuild :: "action \<Rightarrow> bool" where
  "isRebuild a = (a = RebuildLatest \<or> a = RebuildPinned)"

definition needsRebuild :: "bool \<Rightarrow> string \<Rightarrow> program \<Rightarrow> bool" where
  "needsRebuild upgrade gover p = isRebuild (fst (planItem upgrade gover p))"

definition unrebuildable :: "bool \<Rightarrow> string \<Rightarrow> program \<Rightarrow> bool" where
  "unrebuildable upgrade gover p = (fst (planItem upgrade gover p) = SkipUnrebuildable)"

text \<open>The rebuild specification \<open>path@targetVersionSpec\<close> of a plan item.\<close>

definition rebuildSpec :: "bool \<Rightarrow> string \<Rightarrow> program \<Rightarrow> string" where
  "rebuildSpec upgrade gover p = path p @ ''@'' @ snd (planItem upgrade gover p)"

definition scratchDir :: "world \<Rightarrow> runState \<Rightarrow> error + runState" where
  "scratchDir w st =
     (if tempDir st \<noteq> [] then Inr st
      else (case osMkdirTemp w of
              Inl e \<Rightarrow> Inl e
            | Inr d \<Rightarrow> Inr (st\<lparr>tempDir := d, effects := effects st @ [MkdirTemp d]\<rparr>)))"

definition executeRebuild :: "world \<Rightarrow> string \<Rightarrow> string \<Rightarrow> runState \<Rightarrow> error + runState" where
  "executeRebuild w itemPath targetVersionSpec st =
     (case scratchDir w st of
        Inl e \<Rightarrow> Inl e
      | Inr st1 \<Rightarrow>
          (case rebuild w (tempDir st1) (itemPath @ ''@'' @ targetVersionSpec) (effects st1) of
             (err, effs) \<Rightarrow>
               Inr (st1\<lparr>failed := (if err = None then failed st1 else failed st1 @ [itemPath]),
                        effects := effs\<rparr>)))"

fun executeItem :: "world \<Rightarrow> string \<Rightarrow> action \<times> string \<Rightarrow> runState \<Rightarrow> error + runState" where
  "executeItem w itemPath (Skip, v) st = Inr st"
| "executeItem w itemPath (SkipUnrebuildable, v) st = Inr (st\<lparr>skipped := skipped st @ [itemPath]\<rparr>)"
| "executeItem w itemPath (RebuildLatest, v) st = executeRebuild w itemPath v st"
| "executeItem w itemPath (RebuildPinned, v) st = executeRebuild w itemPath v st"

subsection \<open>A world for the examples\<close>

text \<open>In this world the second \<open>go install\<close> of a run fails and every other one succeeds.\<close>

definition exampleWorld :: world where
  "exampleWorld =
     \<lparr>gobinResult = Inr ''/go/bin'',
      versionOutput = (\<lambda>d. Inr []),
      goverResult = Inr ''go1.21'',
      tempRoot = ''/tmp'',
      mkdirResult = Inr ''42'',
      goCommand = ''go'',
      installResult = (\<lambda>k d spec. if k = 1 then Some (ExecError ''exit status 1'') else None)\<rparr>"

section \<open>Properties\<close>

subsection \<open>Facts about the string functions\<close>

lemma HasPrefix_iff: "HasPrefix s pre \<longleftrightarrow> (\<exists>rest. s = pre @ rest)"
proof
  assume "HasPrefix s pre"
  then have "s = pre @ drop (length pre) s"
    by (metis HasPrefix_def append_take_drop_id)
  then show "\<exists>rest. s = pre @ rest" ..
next
  assume "\<exists>rest. s = pre @ rest"
  then show "HasPrefix s pre" by (auto simp: HasPrefix_def)
qed

lemma HasPrefix_nonempty: "HasPrefix line dir \<Longrightarrow> dir \<noteq> [] \<Longrightarrow> line \<noteq> []"
  by (auto simp: HasPrefix_def)

lemma Index_bounds:
  "Index s sub = - 1 \<or> (0 \<le> Index s sub \<and> Index s sub + int (length sub) \<le> int (length s))"
proof (induction s)
  case Nil
  show ?case by simp
next
  case (Cons c cs)
  show ?case
  proof (cases "HasPrefix (c # cs) sub")
    case True
    then show ?thesis by (simp add: HasPrefix_def)
  next
    case False
    with Cons show ?thesis by (auto simp: Let_def)
  qed
qed

lemma Index_none_iff: "Index s sub = - 1 \<longleftrightarrow> \<not> (\<exists>pre rest. s = pre @ sub @ rest)"
proof (induction s)
  case Nil
  show ?case by auto
next
  case (Cons c cs)
  show ?case
  proof (cases "HasPrefix (c # cs) sub")
    case True
    then obtain rest where "c # cs = [] @ sub @ rest"
      by (auto simp: HasPrefix_iff)
    then have "\<exists>pre rest. c # cs = pre @ sub @ rest" by blast
    with True show ?thesis by simp
  next
    case False
    have a: "Index (c # cs) sub = - 1 \<longleftrightarrow> Index cs sub = - 1"
      using False Index_bounds [of cs sub] by (auto simp: Let_def)
    have b: "(\<exists>pre rest. c # cs = pre @ sub @ rest) \<longleftrightarrow> (\<exists>pre rest. cs = pre @ sub @ rest)"
    proof
      assume "\<exists>pre rest. c # cs = pre @ sub @ rest"
      then obtain pre rest where e: "c # cs = pre @ sub @ rest" by blast
      with False have "pre \<noteq> []" by (auto simp: HasPrefix_iff)
      then obtain pre' where "pre = c # pre'" using e by (cases pre) auto
      with e have "cs = pre' @ sub @ rest" by simp
      then show "\<exists>pre rest. cs = pre @ sub @ rest" by blast
    next
      assume "\<exists>pre rest. cs = pre @ sub @ rest"
      then obtain pre rest where "cs = pre @ sub @ rest" by blast
      then have "c # cs = (c # pre) @ sub @ rest" by simp
      then show "\<exists>pre rest. c # cs = pre @ sub @ rest" by blast
    qed
    from a b Cons show ?thesis by simp
  qed
qed

text \<open>
  \<open>Index\<close> finds the first instance: where \<open>sub\<close> stands after \<open>pre\<close> and no instance
  of \<open>sub\<close> starts inside \<open>pre\<close>, the index is the length of \<open>pre\<close>.
\<close>

lemma Index_first:
  "s = pre @ sub @ rest \<Longrightarrow> \<not> (\<exists>a b. pre @ butlast sub = a @ sub @ b) \<Longrightarrow> sub \<noteq> []
     \<Longrightarrow> Index s sub = int (length pre)"
proof (induction pre arbitrary: s)
  case Nil
  then have h: "HasPrefix s sub" by (auto simp: HasPrefix_iff)
  from Nil have "s \<noteq> []" by simp
  then obtain c cs where "s = c # cs" by (cases s) simp_all
  with h show ?case by simp
next
  case (Cons c pre)
  then obtain cs where s: "s = c # cs" and cs: "cs = pre @ sub @ rest" by auto
  have no: "\<not> HasPrefix (c # cs) sub"
  proof
    assume "HasPrefix (c # cs) sub"
    then obtain r where "c # pre @ sub @ rest = sub @ r"
      using cs by (auto simp: HasPrefix_iff)
    moreover have "c # pre @ sub @ rest = ((c # pre) @ butlast sub) @ (last sub # rest)"
      using Cons.prems(3) by simp
    ultimately have "((c # pre) @ butlast sub) @ (last sub # rest) = sub @ r" by simp
    then obtain us where
      "(c # pre) @ butlast sub = sub @ us \<or> ((c # pre) @ butlast sub) @ us = sub"
      unfolding append_eq_append_conv2 by blast
    then show False
    proof
      assume "(c # pre) @ butlast sub = sub @ us"
      then have "(c # pre) @ butlast sub = [] @ sub @ us" by simp
      with Cons.prems(2) show False by blast
    next
      assume e: "((c # pre) @ butlast sub) @ us = sub"
      then have "length ((c # pre) @ butlast sub) + length us = length sub"
        by (metis length_append)
      moreover have "0 < length sub" using Cons.prems(3) by simp
      ultimately have "length us = 0" by simp
      then have "us = []" by simp
      with e have "(c # pre) @ butlast sub = [] @ sub @ []" by simp
      with Cons.prems(2) show False by blast
    qed
  qed
  have "\<not> (\<exists>a b. pre @ butlast sub = a @ sub @ b)"
  proof
    assume "\<exists>a b. pre @ butlast sub = a @ sub @ b"
    then obtain a b where "pre @ butlast sub = a @ sub @ b" by blast
    then have "(c # pre) @ butlast sub = (c # a) @ sub @ b" by simp
    with Cons.prems(2) show False by blast
  qed
  from Cons.IH [OF cs this Cons.prems(3)] have "Index cs sub = int (length pre)" .
  with no s show ?case by (simp add: Let_def)
qed

text \<open>
  The fields that \<open>strings.Fields\<close> returns are not empty and hold no ASCII white space.
\<close>

lemma FieldsFrom_tokens:
  "\<forall>c\<in>set field. \<not> asciiSpace c \<Longrightarrow>
     \<forall>f\<in>set (FieldsFrom field s). f \<noteq> [] \<and> (\<forall>c\<in>set f. \<not> asciiSpace c)"
proof (induction field s rule: FieldsFrom.induct)
  case (1 field)
  then show ?case by simp
next
  case (2 field c cs)
  show ?case
  proof (cases "spaceWidth (c # cs) = 0")
    case True
    then have "\<not> asciiSpace c" by (auto simp: spaceWidth_def split: if_splits)
    with 2 True show ?thesis by simp
  next
    case False
    define r where "r = drop (spaceWidth (c # cs)) (c # cs)"
    have eq: "FieldsFrom field (c # cs) = (if field = [] then [] else [field]) @ FieldsFrom [] r"
      using False unfolding r_def by (simp only: FieldsFrom.simps if_False)
    have "\<forall>f\<in>set (FieldsFrom [] r). f \<noteq> [] \<and> (\<forall>c\<in>set f. \<not> asciiSpace c)"
      using "2.IH"(2) [OF False] unfolding r_def by simp
    with "2.prems" show ?thesis unfolding eq by auto
  qed
qed

lemma Fields_tokens: "\<forall>f\<in>set (Fields s). f \<noteq> [] \<and> (\<forall>c\<in>set f. \<not> asciiSpace c)"
  unfolding Fields_def by (rule FieldsFrom_tokens) simp

lemma Fields_nth_nonempty: "i < length (Fields s) \<Longrightarrow> Fields s ! i \<noteq> []"
  using Fields_tokens [of s] nth_mem by blast

lemma spaceWidth_plain: "plainByte c \<Longrightarrow> spaceWidth (c # cs) = 0"
  by (simp add: spaceWidth_def plainByte_def unicodeSpaces_def HasPrefix_def)

lemma spaceWidth_ascii: "asciiSpace c \<Longrightarrow> spaceWidth (c # cs) = 1"
  by (simp add: spaceWidth_def)

lemma FieldsFrom_plain:
  "\<forall>c\<in>set t. plainByte c \<Longrightarrow> FieldsFrom field (t @ rest) = FieldsFrom (field @ t) rest"
  by (induction t arbitrary: field) (simp_all add: spaceWidth_plain)

lemma FieldsFrom_space:
  "asciiSpace c \<Longrightarrow> FieldsFrom field (c # rest) = (if field = [] then [] else [field]) @ FieldsFrom [] rest"
  by (simp add: spaceWidth_ascii)

text \<open>
  \<open>Fields\<close> returns the fields of a line written as fields of such bytes, each after one
  white-space byte, as a line of \<open>go version -m\<close> is.
\<close>

lemma Fields_join:
  assumes "asciiSpace sp" and "\<forall>t\<in>set ts. t \<noteq> [] \<and> (\<forall>c\<in>set t. plainByte c)"
  shows "Fields (concat (map (\<lambda>t. sp # t) ts)) = ts"
  using assms(2)
proof (induction ts)
  case Nil
  show ?case by (simp add: Fields_def)
next
  case (Cons t ts)
  then have t: "t \<noteq> []" "\<forall>c\<in>set t. plainByte c" and ih: "Fields (concat (map (\<lambda>t. sp # t) ts)) = ts"
    by simp_all
  let ?rest = "concat (map (\<lambda>t. sp # t) ts)"
  have "Fields (concat (map (\<lambda>t. sp # t) (t # ts))) = FieldsFrom [] (sp # t @ ?rest)"
    by (simp add: Fields_def)
  also have "\<dots> = FieldsFrom [] (t @ ?rest)"
    using assms(1) by (simp only: FieldsFrom_space) simp
  also have "\<dots> = FieldsFrom t ?rest"
    using t(2) by (simp add: FieldsFrom_plain)
  also have "\<dots> = t # ts"
  proof (cases ts)
    case Nil
    with t(1) show ?thesis by simp
  next
    case (Cons u us)
    then have "?rest = sp # u @ concat (map (\<lambda>t. sp # t) us)" by simp
    then have "FieldsFrom t ?rest = [t] @ FieldsFrom [] ?rest"
      using assms(1) t(1) by (simp only: FieldsFrom_space) simp
    with ih show ?thesis by (simp add: Fields_def)
  qed
  finally show ?case .
qed

subsection \<open>Facts about the scanner\<close>

lemma scanFrom_replicate:
  "c \<noteq> CHR 0x0A \<Longrightarrow> scanFrom tok (replicate n c) = scanFrom (tok @ replicate n c) []"
proof (induction n arbitrary: tok)
  case 0
  show ?case by simp
next
  case (Suc n)
  have "scanFrom tok (replicate (Suc n) c) = scanFrom (tok @ [c]) (replicate n c)"
    using Suc.prems by simp
  also have "\<dots> = scanFrom ((tok @ [c]) @ replicate n c) []"
    using Suc.prems by (rule Suc.IH)
  finally show ?case by simp
qed

lemma scanFrom_too_long:
  "c \<noteq> CHR 0x0A \<Longrightarrow> MaxScanTokenSize \<le> n \<Longrightarrow> scanFrom [] (replicate n c) = ([], Some ErrTooLong)"
  by (cases n) (auto simp: scanFrom_replicate MaxScanTokenSize_def)

subsection \<open>Facts about the loop of inspectGobin\<close>

lemma slice_boundary:
  assumes "line \<noteq> []"
  shows "slice_from line (Index line '': '' + 2) = Inr (drop (nat (Index line '': '' + 2)) line)"
proof -
  have "1 \<le> int (length line)" using assms by (cases line) simp_all
  moreover have "Index line '': '' = - 1 \<or>
      (0 \<le> Index line '': '' \<and> Index line '': '' + 2 \<le> int (length line))"
    using Index_bounds [of line "'': ''"] by simp
  ultimately have "0 \<le> Index line '': '' + 2 \<and> Index line '': '' + 2 \<le> int (length line)"
    by auto
  then show ?thesis by (simp add: slice_from_def)
qed

lemma scanStep_boundary:
  assumes "HasPrefix line dir" and "line \<noteq> []"
  shows "scanStep dir line (current, out) =
    Inr (boundaryCandidate line, if valid current then out @ [current] else out)"
  using assms by (simp add: scanStep_def slice_boundary boundaryCandidate_def)

lemma scanStep_boundary_panic:
  assumes "HasPrefix [] dir"
  shows "scanStep dir [] st = Inl SlicePanic"
  using assms by (cases st) (simp add: scanStep_def slice_from_def)

lemma scanStep_field:
  assumes "\<not> HasPrefix line dir"
  shows "scanStep dir line (current, out) = Inr (fieldLine line current, out)"
  using assms by (simp add: scanStep_def fieldLine_def Let_def)

lemma closedCandidates_nonempty: "closedCandidates dir ls current \<noteq> []"
  by (induction ls arbitrary: current) auto

text \<open>
  Unless the install directory is empty and some line is empty, the loop ends with the
  last closed candidate in \<open>current\<close> and has appended to \<open>out\<close> the valid ones among the
  candidates closed before, in their order.
\<close>

lemma scanLoop_closed:
  assumes "dir \<noteq> [] \<or> [] \<notin> set ls"
  shows "scanLoop dir ls (current, out) =
    Inr (last (closedCandidates dir ls current),
         out @ filter valid (butlast (closedCandidates dir ls current)))"
  using assms
proof (induction ls arbitrary: current out)
  case Nil
  show ?case by simp
next
  case (Cons line rest)
  then have rest: "dir \<noteq> [] \<or> [] \<notin> set rest" by auto
  show ?case
  proof (cases "HasPrefix line dir")
    case True
    with Cons.prems have "line \<noteq> []" by (auto dest: HasPrefix_nonempty)
    with True have "scanStep dir line (current, out) =
        Inr (boundaryCandidate line, if valid current then out @ [current] else out)"
      by (rule scanStep_boundary)
    with True Cons.IH [OF rest] show ?thesis
      by (simp add: closedCandidates_nonempty)
  next
    case False
    then have "scanStep dir line (current, out) = Inr (fieldLine line current, out)"
      by (rule scanStep_field)
    with False Cons.IH [OF rest] show ?thesis by simp
  qed
qed

lemma scanLoop_panic:
  assumes "dir = []" and "[] \<in> set ls"
  shows "scanLoop dir ls st = Inl SlicePanic"
  using assms
proof (induction ls arbitrary: st)
  case Nil
  then show ?case by simp
next
  case (Cons line rest)
  have pre: "HasPrefix line dir" using Cons.prems(1) by (simp add: HasPrefix_def)
  show ?case
  proof (cases "line = []")
    case True
    with pre show ?thesis by (simp add: scanStep_boundary_panic)
  next
    case False
    obtain current out where st: "st = (current, out)" by (cases st)
    from False Cons.prems have "[] \<in> set rest" by auto
    with Cons.IH Cons.prems(1) have "\<And>st'. scanLoop dir rest st' = Inl SlicePanic" by blast
    with scanStep_boundary [OF pre False] st show ?thesis by simp
  qed
qed

subsection \<open>Facts about the loop of run\<close>

lemma rebuild_spec:
  "rebuild w tmp (p @ CHR ''@'' # v) effs =
     (installResult w (installCount effs) tmp (p @ CHR ''@'' # v),
      effs @ installEffects w tmp (p @ CHR ''@'' # v))"
  by (simp add: rebuild_def)

lemma installCount_append: "installCount (effs @ installEffects w tmp spec) = Suc (installCount effs)"
  by (simp add: installCount_def installEffects_def)

lemma osMkdirTemp_nonempty: "osMkdirTemp w = Inr d \<Longrightarrow> d \<noteq> []"
  by (auto simp: osMkdirTemp_def joinPath_def split: sum.splits if_splits)

lemma skip_iff:
  "fst (planItem upgrade gover p) = Skip \<longleftrightarrow> \<not> upgrade \<and> goVersion p = gover"
  by (simp add: planItem_def)

lemma unrebuildable_iff:
  "unrebuildable upgrade gover p \<longleftrightarrow>
     \<not> (\<not> upgrade \<and> goVersion p = gover) \<and> modVersion p = ''(devel)''"
  by (simp add: unrebuildable_def planItem_def)

lemma needsRebuild_iff:
  "needsRebuild upgrade gover p \<longleftrightarrow>
     \<not> (\<not> upgrade \<and> goVersion p = gover) \<and> modVersion p \<noteq> ''(devel)''"
  by (simp add: needsRebuild_def isRebuild_def planItem_def)

lemma rebuildSpec_eq:
  "needsRebuild upgrade gover p \<Longrightarrow>
     rebuildSpec upgrade gover p = path p @ CHR ''@'' # (if upgrade then ''latest'' else modVersion p)"
  by (auto simp: needsRebuild_iff rebuildSpec_def planItem_def)

lemma planItem_cases:
  "fst (planItem upgrade gover p) = Skip \<or> unrebuildable upgrade gover p \<or> needsRebuild upgrade gover p"
  unfolding skip_iff unrebuildable_iff needsRebuild_iff by blast

lemma runItem_execute:
  "runItem w upgrade gover p st = executeItem w (path p) (planItem upgrade gover p) st"
proof -
  consider (skip) "\<not> upgrade \<and> goVersion p = gover"
    | (devel) "\<not> (\<not> upgrade \<and> goVersion p = gover)" "modVersion p = ''(devel)''"
    | (rebuild) "\<not> (\<not> upgrade \<and> goVersion p = gover)" "modVersion p \<noteq> ''(devel)''"
    by blast
  then show ?thesis
  proof cases
    case skip
    then show ?thesis by (simp add: runItem_def planItem_def)
  next
    case devel
    then show ?thesis by (auto simp: runItem_def planItem_def)
  next
    case rebuild
    have a: "(if tempDir st = [] then
               (case osMkdirTemp w of
                  Inl e \<Rightarrow> Inl e
                | Inr d \<Rightarrow> Inr (st\<lparr>tempDir := d, effects := effects st @ [MkdirTemp d]\<rparr>))
             else Inr st) = scratchDir w st"
      by (simp add: scratchDir_def)
    have b: "\<And>st1 v. (case rebuild w (tempDir st1) (path p @ ''@'' @ v) (effects st1) of
                (Some e, effs) \<Rightarrow> Inr (st1\<lparr>failed := failed st1 @ [path p], effects := effs\<rparr>)
              | (None, effs) \<Rightarrow> (Inr (st1\<lparr>effects := effs\<rparr>) :: error + runState)) =
             (case rebuild w (tempDir st1) (path p @ ''@'' @ v) (effects st1) of
                (err, effs) \<Rightarrow>
                  Inr (st1\<lparr>failed := (if err = None then failed st1 else failed st1 @ [path p]),
                           effects := effs\<rparr>))"
      by (simp split: prod.splits option.splits)
    have "runItem w upgrade gover p st =
        executeRebuild w (path p) (if upgrade then ''latest'' else modVersion p) st"
      using rebuild unfolding runItem_def executeRebuild_def a Let_def b by auto
    with rebuild show ?thesis by (cases upgrade) (auto simp: planItem_def)
  qed
qed

lemma runItem_skip:
  "fst (planItem upgrade gover p) = Skip \<Longrightarrow> runItem w upgrade gover p st = Inr st"
  unfolding skip_iff by (simp add: runItem_def)

lemma runItem_unrebuildable:
  "unrebuildable upgrade gover p \<Longrightarrow>
     runItem w upgrade gover p st = Inr (st\<lparr>skipped := skipped st @ [path p]\<rparr>)"
  unfolding unrebuildable_iff by (auto simp: runItem_def)

lemma runItem_rebuild:
  assumes "needsRebuild upgrade gover p" and "tempDir st \<noteq> []"
  shows "runItem w upgrade gover p st =
     Inr (st\<lparr>failed :=
              (if installResult w (installCount (effects st)) (tempDir st) (rebuildSpec upgrade gover p) = None
               then failed st else failed st @ [path p]),
            effects := effects st @ installEffects w (tempDir st) (rebuildSpec upgrade gover p)\<rparr>)"
proof -
  have "executeRebuild w (path p) (snd (planItem upgrade gover p)) st =
     Inr (st\<lparr>failed :=
              (if installResult w (installCount (effects st)) (tempDir st) (rebuildSpec upgrade gover p) = None
               then failed st else failed st @ [path p]),
            effects := effects st @ installEffects w (tempDir st) (rebuildSpec upgrade gover p)\<rparr>)"
    using assms(2) by (simp add: executeRebuild_def scratchDir_def rebuildSpec_def rebuild_spec)
  moreover have "executeItem w (path p) (planItem upgrade gover p) st =
      executeRebuild w (path p) (snd (planItem upgrade gover p)) st"
    using assms(1) by (cases "planItem upgrade gover p") (auto simp: needsRebuild_def isRebuild_def)
  ultimately show ?thesis by (simp add: runItem_execute)
qed

lemma runItem_rebuild_mkdir:
  assumes "needsRebuild upgrade gover p" and "tempDir st = []"
  shows "runItem w upgrade gover p st =
     (case osMkdirTemp w of
        Inl e \<Rightarrow> Inl e
      | Inr d \<Rightarrow> runItem w upgrade gover p (st\<lparr>tempDir := d, effects := effects st @ [MkdirTemp d]\<rparr>))"
proof (cases "osMkdirTemp w")
  case (Inl e)
  with assms show ?thesis unfolding needsRebuild_iff by (auto simp: runItem_def)
next
  case (Inr d)
  then have "d \<noteq> []" by (rule osMkdirTemp_nonempty)
  with Inr assms show ?thesis unfolding needsRebuild_iff by (auto simp: runItem_def)
qed

lemma runLoop_append:
  "runLoop w upgrade gover (ps @ qs) st =
     (case runLoop w upgrade gover ps st of
        Inl e \<Rightarrow> Inl e
      | Inr st' \<Rightarrow> runLoop w upgrade gover qs st')"
  by (induction ps arbitrary: st) (simp_all split: sum.splits)

lemma runLoop_no_rebuild:
  assumes "\<forall>p\<in>set ps. \<not> needsRebuild upgrade gover p"
  shows "runLoop w upgrade gover ps st =
     Inr (st\<lparr>skipped := skipped st @ map path (filter (unrebuildable upgrade gover) ps)\<rparr>)"
  using assms
proof (induction ps arbitrary: st)
  case Nil
  show ?case by simp
next
  case (Cons p ps)
  then have rest: "\<forall>q\<in>set ps. \<not> needsRebuild upgrade gover q" by simp
  from Cons.prems planItem_cases [of upgrade gover p]
  consider (skip) "fst (planItem upgrade gover p) = Skip" | (devel) "unrebuildable upgrade gover p"
    by auto
  then show ?case
  proof cases
    case skip
    then have "\<not> unrebuildable upgrade gover p" by (simp add: unrebuildable_def)
    with skip Cons.IH [OF rest] show ?thesis by (simp add: runItem_skip)
  next
    case devel
    with Cons.IH [OF rest] show ?thesis by (simp add: runItem_unrebuildable)
  qed
qed

text \<open>
  Once the temporary directory exists the loop cannot return early: it runs to the end
  of the programs whatever the installs return, and its outcome has a closed form.
\<close>

lemma runLoop_with_dir:
  assumes "tempDir st \<noteq> []"
  shows "\<exists>st'. runLoop w upgrade gover ps st = Inr st' \<and> tempDir st' = tempDir st \<and>
     skipped st' = skipped st @ map path (filter (unrebuildable upgrade gover) ps) \<and>
     effects st' = effects st @
       concat (map (\<lambda>p. installEffects w (tempDir st) (rebuildSpec upgrade gover p))
                 (filter (needsRebuild upgrade gover) ps)) \<and>
     failed st' = failed st @
       map (path \<circ> snd)
         (filter (\<lambda>(k, p). installResult w k (tempDir st) (rebuildSpec upgrade gover p) \<noteq> None)
            (enumerate (installCount (effects st)) (filter (needsRebuild upgrade gover) ps)))"
  using assms
proof (induction ps arbitrary: st)
  case Nil
  show ?case by simp
next
  case (Cons p ps)
  from planItem_cases [of upgrade gover p]
  consider (skip) "fst (planItem upgrade gover p) = Skip" | (devel) "unrebuildable upgrade gover p"
    | (rebuild) "needsRebuild upgrade gover p"
    by auto
  then show ?case
  proof cases
    case skip
    then have "\<not> unrebuildable upgrade gover p" and "\<not> needsRebuild upgrade gover p"
      by (simp_all add: unrebuildable_def needsRebuild_def isRebuild_def)
    with skip Cons.IH [OF Cons.prems] show ?thesis by (simp add: runItem_skip)
  next
    case devel
    then have no: "\<not> needsRebuild upgrade gover p"
      by (simp add: unrebuildable_def needsRebuild_def isRebuild_def)
    let ?st = "st\<lparr>skipped := skipped st @ [path p]\<rparr>"
    have "tempDir ?st \<noteq> []" using Cons.prems by simp
    from Cons.IH [OF this] devel no show ?thesis by (simp add: runItem_unrebuildable)
  next
    case rebuild
    then have no: "\<not> unrebuildable upgrade gover p"
      by (auto simp: unrebuildable_def needsRebuild_def isRebuild_def)
    let ?r = "installResult w (installCount (effects st)) (tempDir st) (rebuildSpec upgrade gover p)"
    let ?st = "st\<lparr>failed := (if ?r = None then failed st else failed st @ [path p]),
                   effects := effects st @ installEffects w (tempDir st) (rebuildSpec upgrade gover p)\<rparr>"
    have step: "runItem w upgrade gover p st = Inr ?st"
      using rebuild Cons.prems by (rule runItem_rebuild)
    have "tempDir ?st \<noteq> []" using Cons.prems by simp
    from Cons.IH [OF this] obtain st' where
      l: "runLoop w upgrade gover ps ?st = Inr st'" and t: "tempDir st' = tempDir ?st" and
      s: "skipped st' = skipped ?st @ map path (filter (unrebuildable upgrade gover) ps)" and
      e: "effects st' = effects ?st @
           concat (map (\<lambda>p. installEffects w (tempDir ?st) (rebuildSpec upgrade gover p))
                     (filter (needsRebuild upgrade gover) ps))" and
      f: "failed st' = failed ?st @
           map (path \<circ> snd)
             (filter (\<lambda>(k, p). installResult w k (tempDir ?st) (rebuildSpec upgrade gover p) \<noteq> None)
                (enumerate (installCount (effects ?st)) (filter (needsRebuild upgrade gover) ps)))"
      by blast
    have c: "installCount (effects ?st) = Suc (installCount (effects st))"
      by (simp add: installCount_append)
    have "runLoop w upgrade gover (p # ps) st = Inr st'" using step l by simp
    moreover have "tempDir st' = tempDir st" using t by simp
    moreover have "skipped st' = skipped st @ map path (filter (unrebuildable upgrade gover) (p # ps))"
      using s no by simp
    moreover have "effects st' = effects st @
       concat (map (\<lambda>p. installEffects w (tempDir st) (rebuildSpec upgrade gover p))
                 (filter (needsRebuild upgrade gover) (p # ps)))"
      using e rebuild by simp
    moreover have "failed st' = failed st @
       map (path \<circ> snd)
         (filter (\<lambda>(k, p). installResult w k (tempDir st) (rebuildSpec upgrade gover p) \<noteq> None)
            (enumerate (installCount (effects st)) (filter (needsRebuild upgrade gover) (p # ps))))"
      using f rebuild unfolding c by simp
    ultimately show ?thesis by blast
  qed
qed

text \<open>
  While the directory does not exist, creating it ahead of a loop that has a rebuild to
  do gives the same outcome as creating it at the first rebuild.
\<close>

lemma runLoop_lazy_eager:
  assumes "tempDir st = []" and "\<exists>p\<in>set ps. needsRebuild upgrade gover p"
  shows "runLoop w upgrade gover ps st =
     (case osMkdirTemp w of
        Inl e \<Rightarrow> Inl e
      | Inr d \<Rightarrow> runLoop w upgrade gover ps (st\<lparr>tempDir := d, effects := effects st @ [MkdirTemp d]\<rparr>))"
  using assms
proof (induction ps arbitrary: st)
  case Nil
  then show ?case by simp
next
  case (Cons p ps)
  from planItem_cases [of upgrade gover p]
  consider (skip) "fst (planItem upgrade gover p) = Skip" | (devel) "unrebuildable upgrade gover p"
    | (rebuild) "needsRebuild upgrade gover p"
    by auto
  then show ?case
  proof cases
    case skip
    then have "\<not> needsRebuild upgrade gover p" by (simp add: needsRebuild_def isRebuild_def)
    with Cons.prems have "\<exists>q\<in>set ps. needsRebuild upgrade gover q" by auto
    from Cons.IH [OF Cons.prems(1) this] skip show ?thesis
      by (simp add: runItem_skip split: sum.splits)
  next
    case devel
    then have "\<not> needsRebuild upgrade gover p"
      by (simp add: unrebuildable_def needsRebuild_def isRebuild_def)
    with Cons.prems have ex: "\<exists>q\<in>set ps. needsRebuild upgrade gover q" by auto
    let ?st = "st\<lparr>skipped := skipped st @ [path p]\<rparr>"
    have "tempDir ?st = []" using Cons.prems(1) by simp
    from Cons.IH [OF this ex]
    have ih: "runLoop w upgrade gover ps ?st =
        (case osMkdirTemp w of
           Inl e \<Rightarrow> Inl e
         | Inr d \<Rightarrow> runLoop w upgrade gover ps (?st\<lparr>tempDir := d, effects := effects ?st @ [MkdirTemp d]\<rparr>))" .
    have l: "runLoop w upgrade gover (p # ps) st = runLoop w upgrade gover ps ?st"
      using devel by (simp add: runItem_unrebuildable)
    show ?thesis
    proof (cases "osMkdirTemp w")
      case (Inl e)
      with ih l show ?thesis by simp
    next
      case (Inr d)
      let ?sd = "st\<lparr>tempDir := d, effects := effects st @ [MkdirTemp d]\<rparr>"
      have comm: "?st\<lparr>tempDir := d, effects := effects ?st @ [MkdirTemp d]\<rparr> =
          ?sd\<lparr>skipped := skipped ?sd @ [path p]\<rparr>"
        by (cases st) simp
      have "runLoop w upgrade gover (p # ps) ?sd =
          runLoop w upgrade gover ps (?sd\<lparr>skipped := skipped ?sd @ [path p]\<rparr>)"
        using devel by (simp only: runLoop.simps runItem_unrebuildable sum.case)
      also have "\<dots> = runLoop w upgrade gover ps (?st\<lparr>tempDir := d, effects := effects ?st @ [MkdirTemp d]\<rparr>)"
        by (simp only: comm)
      also have "\<dots> = runLoop w upgrade gover ps ?st"
        using ih Inr by simp
      finally have "runLoop w upgrade gover (p # ps) ?sd = runLoop w upgrade gover (p # ps) st"
        using l by simp
      with Inr show ?thesis by simp
    qed
  next
    case rebuild
    from runItem_rebuild_mkdir [OF rebuild Cons.prems(1), of w] show ?thesis
      by (simp split: sum.splits)
  qed
qed

lemma filter_mkdir_installs:
  "filter isMkdirTemp (concat (map (\<lambda>p. installEffects w d (f p)) rs)) = []"
  by (induction rs) (simp_all add: installEffects_def)

lemma filter_mkdir_println: "filter isMkdirTemp (map Println xs) = []"
  by (induction xs) simp_all

lemma runPrograms_mkdirs:
  "filter isMkdirTemp (snd (runPrograms w upgrade gover ps)) =
     (if \<exists>p\<in>set ps. needsRebuild upgrade gover p
      then (case osMkdirTemp w of Inl e \<Rightarrow> [] | Inr d \<Rightarrow> [MkdirTemp d])
      else [])"
proof (cases "\<exists>p\<in>set ps. needsRebuild upgrade gover p")
  case True
  have t: "tempDir initState = []" by (simp add: initState_def)
  note lazy = runLoop_lazy_eager [OF t True, of w]
  show ?thesis
  proof (cases "osMkdirTemp w")
    case (Inl e)
    with lazy True show ?thesis by (simp add: runPrograms_def)
  next
    case (Inr d)
    let ?st = "initState\<lparr>tempDir := d, effects := effects initState @ [MkdirTemp d]\<rparr>"
    from Inr have "d \<noteq> []" by (rule osMkdirTemp_nonempty)
    then have "tempDir ?st \<noteq> []" by simp
    from runLoop_with_dir [OF this, of w upgrade gover ps] obtain st' where
      l: "runLoop w upgrade gover ps ?st = Inr st'" and td: "tempDir st' = tempDir ?st" and
      e: "effects st' = effects ?st @
            concat (map (\<lambda>p. installEffects w (tempDir ?st) (rebuildSpec upgrade gover p))
                      (filter (needsRebuild upgrade gover) ps))"
      by blast
    from lazy Inr l have "runLoop w upgrade gover ps initState = Inr st'" by simp
    moreover have "filter isMkdirTemp (effects st') = [MkdirTemp d]"
      unfolding e by (simp add: filter_mkdir_installs initState_def)
    ultimately show ?thesis using True Inr td \<open>d \<noteq> []\<close>
      by (simp add: runPrograms_def filter_mkdir_println)
  qed
next
  case False
  then have "\<forall>p\<in>set ps. \<not> needsRebuild upgrade gover p" by blast
  from runLoop_no_rebuild [OF this, of w initState] False show ?thesis
    by (simp add: runPrograms_def filter_mkdir_println initState_def)
qed

lemma report_sections:
  "report sk fl =
     (if sk = [] then []
      else ''Skipped the following programs because of the (devel) module version:'' #
           map (\<lambda>s. ''  '' @ s) sk) @
     (if fl = [] then []
      else ''There were errors installing the following modules, see the full log above:'' #
           map (\<lambda>s. ''  '' @ s) fl)"
  by (simp add: report_def)

subsection \<open>Evaluations used in the examples\<close>

lemma Fields_mod_example:
  "Fields (CHR 0x09 # ''mod'' @ CHR 0x09 # ''ex.com/x'' @ CHR 0x09 # ''v1.2.0'' @ CHR 0x09 # ''h1:uo='') =
     [''mod'', ''ex.com/x'', ''v1.2.0'', ''h1:uo='']"
  by (simp add: Fields_def spaceWidth_def asciiSpace_def unicodeSpaces_def HasPrefix_def)

lemma Fields_path_example:
  "Fields (CHR 0x09 # ''path'' @ CHR 0x09 # ''ex.com/x/cmd'') = [''path'', ''ex.com/x/cmd'']"
  by (simp add: Fields_def spaceWidth_def asciiSpace_def unicodeSpaces_def HasPrefix_def)

lemma Fields_dep_example:
  "Fields (CHR 0x09 # ''dep'' @ CHR 0x09 # ''ex.com/y'' @ CHR 0x09 # ''v0.1.0'') = [''dep'', ''ex.com/y'', ''v0.1.0'']"
  by (simp add: Fields_def spaceWidth_def asciiSpace_def unicodeSpaces_def HasPrefix_def)

lemma Fields_example_p: "Fields ''path p'' = [''path'', ''p'']"
  by (simp add: Fields_def spaceWidth_def asciiSpace_def unicodeSpaces_def HasPrefix_def)

lemma Fields_example_m: "Fields ''mod m v1'' = [''mod'', ''m'', ''v1'']"
  by (simp add: Fields_def spaceWidth_def asciiSpace_def unicodeSpaces_def HasPrefix_def)

lemma scanLines_long_example:
  "scanLines (''/b/x: go1'' @ CHR 0x0A # ''path p'' @ CHR 0x0A # ''mod m v1'' @ CHR 0x0A #
              ''/b/y: go1'' @ CHR 0x0A # replicate 65536 (CHR ''z'')) =
     ([''/b/x: go1'', ''path p'', ''mod m v1'', ''/b/y: go1''], Some ErrTooLong)"
proof -
  have "scanFrom [] (replicate 65536 (CHR ''z'')) = ([], Some ErrTooLong)"
    by (rule scanFrom_too_long) (simp_all add: MaxScanTokenSize_def)
  then show ?thesis
    by (simp add: scanLines_def MaxScanTokenSize_def dropCR_def)
qed

lemma scanLoop_long_example:
  "scanLoop ''/b'' [''/b/x: go1'', ''path p'', ''mod m v1'', ''/b/y: go1''] (zeroProgram, []) =
     Inr (\<lparr>path = [], modVersion = [], goVersion = ''go1''\<rparr>,
          [\<lparr>path = ''p'', modVersion = ''v1'', goVersion = ''go1''\<rparr>])"
  by (simp add: scanStep_def Fields_example_p Fields_example_m HasPrefix_def slice_from_def
      valid_def zeroProgram_def)

text \<open>
  The sample in the comment of \<open>inspectGobin\<close>, with the install directory \<open>go/bin\<close>:
  one record, with the path of the \<open>path\<close> line, the version of the \<open>mod\<close> line and the
  toolchain version of the first line; the \<open>dep\<close> line changes nothing.
\<close>

lemma sample_scan:
  "scanLines
     (''go/bin/tlstun: devel +4de4480dc3 Fri Dec 4 22:08:54 2020 +0000'' @ CHR 0x0A #
      CHR 0x09 # ''path'' @ CHR 0x09 # ''github.com/artyom/tlstun/v2'' @ CHR 0x0A #
      CHR 0x09 # ''mod'' @ CHR 0x09 # ''github.com/artyom/tlstun/v2'' @ CHR 0x09 # ''v2.2.1'' @
        CHR 0x09 # ''h1:uo/Oj/63PdKuwYJ+LiAl61wefhC2CvNpDMegN+xxpmM='' @ CHR 0x0A #
      CHR 0x09 # ''dep'' @ CHR 0x09 # ''github.com/armon/go-socks5'' @ CHR 0x09 #
        ''v0.0.0-20160902184237-e75332964ef5'' @ CHR 0x09 # ''h1:0'' @ [CHR 0x0A]) =
   ([''go/bin/tlstun: devel +4de4480dc3 Fri Dec 4 22:08:54 2020 +0000'',
     CHR 0x09 # ''path'' @ CHR 0x09 # ''github.com/artyom/tlstun/v2'',
     CHR 0x09 # ''mod'' @ CHR 0x09 # ''github.com/artyom/tlstun/v2'' @ CHR 0x09 # ''v2.2.1'' @
        CHR 0x09 # ''h1:uo/Oj/63PdKuwYJ+LiAl61wefhC2CvNpDMegN+xxpmM='',
     CHR 0x09 # ''dep'' @ CHR 0x09 # ''github.com/armon/go-socks5'' @ CHR 0x09 #
        ''v0.0.0-20160902184237-e75332964ef5'' @ CHR 0x09 # ''h1:0''], None)"
  by (simp add: scanLines_def MaxScanTokenSize_def dropCR_def)

lemma sample_path:
  "Fields (CHR 0x09 # ''path'' @ CHR 0x09 # ''github.com/artyom/tlstun/v2'') =
     [''path'', ''github.com/artyom/tlstun/v2'']"
  using Fields_join [of "CHR 0x09" "[''path'', ''github.com/artyom/tlstun/v2'']"]
  by (simp add: asciiSpace_def plainByte_def)

lemma sample_mod:
  "Fields (CHR 0x09 # ''mod'' @ CHR 0x09 # ''github.com/artyom/tlstun/v2'' @ CHR 0x09 # ''v2.2.1'' @
        CHR 0x09 # ''h1:uo/Oj/63PdKuwYJ+LiAl61wefhC2CvNpDMegN+xxpmM='') =
     [''mod'', ''github.com/artyom/tlstun/v2'', ''v2.2.1'',
      ''h1:uo/Oj/63PdKuwYJ+LiAl61wefhC2CvNpDMegN+xxpmM='']"
  using Fields_join [of "CHR 0x09" "[''mod'', ''github.com/artyom/tlstun/v2'', ''v2.2.1'',
      ''h1:uo/Oj/63PdKuwYJ+LiAl61wefhC2CvNpDMegN+xxpmM='']"]
  by (simp add: asciiSpace_def plainByte_def)

lemma sample_dep:
  "Fields (CHR 0x09 # ''dep'' @ CHR 0x09 # ''github.com/armon/go-socks5'' @ CHR 0x09 #
        ''v0.0.0-20160902184237-e75332964ef5'' @ CHR 0x09 # ''h1:0'') =
     [''dep'', ''github.com/armon/go-socks5'', ''v0.0.0-20160902184237-e75332964ef5'', ''h1:0'']"
  using Fields_join [of "CHR 0x09" "[''dep'', ''github.com/armon/go-socks5'',
      ''v0.0.0-20160902184237-e75332964ef5'', ''h1:0'']"]
  by (simp add: asciiSpace_def plainByte_def)

lemma sample_index:
  "Index ''go/bin/tlstun: devel +4de4480dc3 Fri Dec 4 22:08:54 2020 +0000'' '': '' = 13"
  by (simp add: HasPrefix_def)

lemma sample_inspect:
  "inspectGobin ''go/bin''
     (Inr (''go/bin/tlstun: devel +4de4480dc3 Fri Dec 4 22:08:54 2020 +0000'' @ CHR 0x0A #
           CHR 0x09 # ''path'' @ CHR 0x09 # ''github.com/artyom/tlstun/v2'' @ CHR 0x0A #
           CHR 0x09 # ''mod'' @ CHR 0x09 # ''github.com/artyom/tlstun/v2'' @ CHR 0x09 # ''v2.2.1'' @
             CHR 0x09 # ''h1:uo/Oj/63PdKuwYJ+LiAl61wefhC2CvNpDMegN+xxpmM='' @ CHR 0x0A #
           CHR 0x09 # ''dep'' @ CHR 0x09 # ''github.com/armon/go-socks5'' @ CHR 0x09 #
             ''v0.0.0-20160902184237-e75332964ef5'' @ CHR 0x09 # ''h1:0'' @ [CHR 0x0A])) =
   Inr [\<lparr>path = ''github.com/artyom/tlstun/v2'', modVersion = ''v2.2.1'',
         goVersion = ''devel +4de4480dc3 Fri Dec 4 22:08:54 2020 +0000''\<rparr>]"
  by (simp add: inspectGobin_def sample_scan [simplified] scanStep_def sample_path [simplified] sample_mod [simplified]
      sample_dep [simplified] sample_index HasPrefix_def slice_from_def valid_def zeroProgram_def)

lemma example_inspect:
  "inspectGobin ''/go/bin''
     (Inr (''/go/bin/a: go1.20'' @ CHR 0x0A # ''path a'' @ CHR 0x0A # ''mod m v1'' @ [CHR 0x0A])) =
   Inr [\<lparr>path = ''a'', modVersion = ''v1'', goVersion = ''go1.20''\<rparr>]"
  by (simp add: inspectGobin_def scanLines_def MaxScanTokenSize_def dropCR_def scanStep_def
      HasPrefix_def slice_from_def Fields_def spaceWidth_def asciiSpace_def unicodeSpaces_def
      valid_def zeroProgram_def)

lemma example_loop_devel_first:
  "runLoop exampleWorld False ''go1.21''
     [\<lparr>path = ''b'', modVersion = ''(devel)'', goVersion = ''go1.20''\<rparr>,
      \<lparr>path = ''a'', modVersion = ''v1'', goVersion = ''go1.20''\<rparr>] initState =
   Inr \<lparr>skipped = [''b''], failed = [], tempDir = ''/tmp/rebuild-gobin-42'',
        effects = [MkdirTemp ''/tmp/rebuild-gobin-42'', Println ''running: go install a@v1'',
                   GoInstall ''/tmp/rebuild-gobin-42'' ''a@v1'']\<rparr>"
  by (simp add: runItem_def Let_def rebuild_def installEffects_def installCount_def osMkdirTemp_def
      joinPath_def exampleWorld_def initState_def)

lemma example_loop_first:
  "runLoop exampleWorld False ''go1.21''
     [\<lparr>path = ''a'', modVersion = ''v1'', goVersion = ''go1.20''\<rparr>] initState =
   Inr \<lparr>skipped = [], failed = [], tempDir = ''/tmp/rebuild-gobin-42'',
        effects = [MkdirTemp ''/tmp/rebuild-gobin-42'', Println ''running: go install a@v1'',
                   GoInstall ''/tmp/rebuild-gobin-42'' ''a@v1'']\<rparr>"
  by (simp add: runItem_def Let_def rebuild_def installEffects_def installCount_def osMkdirTemp_def
      joinPath_def exampleWorld_def initState_def)

section \<open>The claims\<close>

text \<open>
  Claim C1. For every record, valid or not, one iteration of the loop of \<open>run\<close> does
  what the executor does with the plan item that the four rules give, taken in order:
  Skip when \<open>upgrade\<close> is false and the toolchain versions are equal; otherwise
  SkipUnrebuildable when the module version is \<open>(devel)\<close>; otherwise RebuildLatest with
  the version \<open>latest\<close> when \<open>upgrade\<close> is true; otherwise RebuildPinned with the module
  version of the record.
\<close>

theorem planner_follows_rules:
  "runItem w upgrade gover p st = executeItem w (path p) (planItem upgrade gover p) st \<and>
   planItem upgrade gover p =
     (if \<not> upgrade \<and> goVersion p = gover then (Skip, [])
      else if modVersion p = ''(devel)'' then (SkipUnrebuildable, [])
      else if upgrade then (RebuildLatest, ''latest'')
      else (RebuildPinned, modVersion p))"
  using runItem_execute [of w upgrade gover p st] by (simp add: planItem_def)

text \<open>
  Claim C2, amended. For a non-empty install directory and every line, the parser
  starts a new candidate exactly when the line begins with the install directory,
  whatever follows it. On such a line the current candidate is appended to \<open>out\<close> when
  it is valid, and the new candidate has an empty path and module version; when the
  line is \<open>pre\<close>, then \<open>": "\<close>, then \<open>rest\<close>, and no \<open>": "\<close> starts inside \<open>pre\<close>, its toolchain
  version is \<open>rest\<close>. On any other line nothing is appended, the toolchain version stays,
  and a path or module version that is set stays set.
\<close>

theorem boundary_starts_candidate:
  assumes "dir \<noteq> []"
  shows "(HasPrefix line dir \<longrightarrow>
            (\<exists>v. scanStep dir line (current, out) =
                   Inr (\<lparr>path = [], modVersion = [], goVersion = v\<rparr>,
                        if valid current then out @ [current] else out) \<and>
                 (\<forall>pre rest. line = pre @ '': '' @ rest \<and> \<not> (\<exists>a b. pre @ '':'' = a @ '': '' @ b)
                    \<longrightarrow> v = rest))) \<and>
         (\<not> HasPrefix line dir \<longrightarrow>
            (\<exists>current'. scanStep dir line (current, out) = Inr (current', out) \<and>
                 goVersion current' = goVersion current \<and>
                 (path current \<noteq> [] \<longrightarrow> path current' \<noteq> []) \<and>
                 (modVersion current \<noteq> [] \<longrightarrow> modVersion current' \<noteq> [])))"
proof (intro conjI impI)
  assume pre: "HasPrefix line dir"
  with assms have ne: "line \<noteq> []" by (rule HasPrefix_nonempty [rotated])
  let ?v = "drop (nat (Index line '': '' + 2)) line"
  have step: "scanStep dir line (current, out) =
      Inr (\<lparr>path = [], modVersion = [], goVersion = ?v\<rparr>, if valid current then out @ [current] else out)"
    using scanStep_boundary [OF pre ne] by (simp add: boundaryCandidate_def)
  have first: "\<forall>pre rest. line = pre @ '': '' @ rest \<and> \<not> (\<exists>a b. pre @ '':'' = a @ '': '' @ b) \<longrightarrow> ?v = rest"
  proof (intro allI impI)
    fix pre rest
    assume h: "line = pre @ '': '' @ rest \<and> \<not> (\<exists>a b. pre @ '':'' = a @ '': '' @ b)"
    then have "Index line '': '' = int (length pre)"
      using Index_first [of line pre "'': ''" rest] by simp
    with h show "?v = rest" by (simp add: nat_add_distrib)
  qed
  from step first
  show "\<exists>v. scanStep dir line (current, out) =
          Inr (\<lparr>path = [], modVersion = [], goVersion = v\<rparr>, if valid current then out @ [current] else out) \<and>
        (\<forall>pre rest. line = pre @ '': '' @ rest \<and> \<not> (\<exists>a b. pre @ '':'' = a @ '': '' @ b) \<longrightarrow> v = rest)"
    by blast
next
  assume no: "\<not> HasPrefix line dir"
  have "goVersion (fieldLine line current) = goVersion current"
    by (simp add: fieldLine_def)
  moreover have "path current \<noteq> [] \<longrightarrow> path (fieldLine line current) \<noteq> []"
    using Fields_nth_nonempty [of 1 line] by (simp add: fieldLine_def)
  moreover have "modVersion current \<noteq> [] \<longrightarrow> modVersion (fieldLine line current) \<noteq> []"
    using Fields_nth_nonempty [of 2 line] by (simp add: fieldLine_def)
  ultimately show "\<exists>current'. scanStep dir line (current, out) = Inr (current', out) \<and>
      goVersion current' = goVersion current \<and>
      (path current \<noteq> [] \<longrightarrow> path current' \<noteq> []) \<and>
      (modVersion current \<noteq> [] \<longrightarrow> modVersion current' \<noteq> [])"
    using scanStep_field [OF no] by blast
qed

text \<open>
  The theorem at a boundary line and at a path line.
\<close>

theorem boundary_starts_candidate_witness:
  "''/go/bin'' \<noteq> [] \<and> HasPrefix ''/go/bin/x: go1.20'' ''/go/bin'' \<and>
   scanStep ''/go/bin'' ''/go/bin/x: go1.20'' (zeroProgram, []) =
     Inr (\<lparr>path = [], modVersion = [], goVersion = ''go1.20''\<rparr>, []) \<and>
   \<not> HasPrefix ''  path ex.com/x'' ''/go/bin'' \<and>
   scanStep ''/go/bin'' ''  path ex.com/x'' (\<lparr>path = [], modVersion = [], goVersion = ''go1.20''\<rparr>, []) =
     Inr (\<lparr>path = ''ex.com/x'', modVersion = [], goVersion = ''go1.20''\<rparr>, [])"
proof -
  have d: "''/go/bin'' \<noteq> []" by simp
  have p: "HasPrefix ''/go/bin/x: go1.20'' ''/go/bin''" by (simp add: HasPrefix_def)
  have n: "\<not> HasPrefix ''  path ex.com/x'' ''/go/bin''" by (simp add: HasPrefix_def)
  have first: "\<not> (\<exists>a b. ''/go/bin/x'' @ '':'' = a @ '': '' @ b)"
    using Index_none_iff [of "''/go/bin/x:''" "'': ''"] by (simp add: HasPrefix_def)
  from boundary_starts_candidate [OF d, of "''/go/bin/x: go1.20''" zeroProgram "[]"] p
  obtain v where
    s: "scanStep ''/go/bin'' ''/go/bin/x: go1.20'' (zeroProgram, []) =
          Inr (\<lparr>path = [], modVersion = [], goVersion = v\<rparr>, if valid zeroProgram then [] @ [zeroProgram] else [])"
    and f: "\<forall>pre rest. ''/go/bin/x: go1.20'' = pre @ '': '' @ rest \<and> \<not> (\<exists>a b. pre @ '':'' = a @ '': '' @ b) \<longrightarrow> v = rest"
    by blast
  have "''/go/bin/x: go1.20'' = ''/go/bin/x'' @ '': '' @ ''go1.20''" by simp
  with f first have "v = ''go1.20''" by blast
  with s have a: "scanStep ''/go/bin'' ''/go/bin/x: go1.20'' (zeroProgram, []) =
     Inr (\<lparr>path = [], modVersion = [], goVersion = ''go1.20''\<rparr>, [])"
    by (simp add: valid_def zeroProgram_def)
  have b: "scanStep ''/go/bin'' ''  path ex.com/x'' (\<lparr>path = [], modVersion = [], goVersion = ''go1.20''\<rparr>, []) =
     Inr (\<lparr>path = ''ex.com/x'', modVersion = [], goVersion = ''go1.20''\<rparr>, [])"
    by (simp add: scanStep_def HasPrefix_def Fields_def spaceWidth_def asciiSpace_def unicodeSpaces_def)
  from d p a n b show ?thesis by blast
qed

text \<open>
  Claim C2 as first stated asks for a colon-delimited suffix. The line \<open>/go/bin/tool\<close>
  holds no colon at all, and the parser still closes the current candidate and starts a
  new one.
\<close>

theorem boundary_needs_no_colon:
  "scanStep ''/go/bin'' ''/go/bin/tool''
     (\<lparr>path = ''ex.com/a'', modVersion = ''v1.0.0'', goVersion = ''go1.20''\<rparr>, []) =
   Inr (\<lparr>path = [], modVersion = [], goVersion = ''go/bin/tool''\<rparr>,
        [\<lparr>path = ''ex.com/a'', modVersion = ''v1.0.0'', goVersion = ''go1.20''\<rparr>]) \<and>
   CHR '':'' \<notin> set ''/go/bin/tool''"
  by (simp add: scanStep_def HasPrefix_def slice_from_def valid_def)

text \<open>
  Claim C3, amended. \<open>inspectGobin\<close> returns the valid ones among the candidates closed
  at a boundary line or at the end of the input, in the order of the input, and drops
  the others, provided that the scanner reads the text to its end and that the slice
  expression does not panic. When a line has \<open>MaxScanTokenSize\<close> bytes or more the
  scanner stops there with \<open>ErrTooLong\<close> and \<open>inspectGobin\<close> returns that error and no
  record; the slice expression panics only where the install directory is empty and an
  empty line is read.
\<close>

theorem parser_emits_valid_candidates:
  "inspectGobin dir (Inr buf) =
     (case scanLines buf of
        (ls, scanErr) \<Rightarrow>
          if dir = [] \<and> [] \<in> set ls then Inl SlicePanic
          else (case scanErr of
                  Some e \<Rightarrow> Inl e
                | None \<Rightarrow> Inr (filter valid (closedCandidates dir ls zeroProgram))))"
proof -
  obtain ls scanErr where sl: "scanLines buf = (ls, scanErr)" by (cases "scanLines buf")
  show ?thesis
  proof (cases "dir = [] \<and> [] \<in> set ls")
    case True
    then have "scanLoop dir ls (zeroProgram, []) = Inl SlicePanic"
      by (simp add: scanLoop_panic)
    with True sl show ?thesis by (simp add: inspectGobin_def)
  next
    case False
    then have ok: "dir \<noteq> [] \<or> [] \<notin> set ls" by blast
    let ?cs = "closedCandidates dir ls zeroProgram"
    have cs: "?cs = butlast ?cs @ [last ?cs]"
      by (simp add: closedCandidates_nonempty)
    have "filter valid ?cs = filter valid (butlast ?cs) @ (if valid (last ?cs) then [last ?cs] else [])"
      by (subst cs) simp
    with False sl scanLoop_closed [OF ok, of zeroProgram "[]"] show ?thesis
      by (auto simp: inspectGobin_def split: option.splits)
  qed
qed

text \<open>
  Claim C3 as first stated speaks of every input text. In this text the candidate of
  \<open>/b/x\<close> is valid when the boundary line of \<open>/b/y\<close> is read and is appended to \<open>out\<close>;
  the last line has 65536 bytes, and \<open>inspectGobin\<close> returns the error of the scanner.
\<close>

theorem valid_candidate_lost_on_long_line:
  "scanLoop ''/b'' [''/b/x: go1'', ''path p'', ''mod m v1'', ''/b/y: go1''] (zeroProgram, []) =
     Inr (\<lparr>path = [], modVersion = [], goVersion = ''go1''\<rparr>,
          [\<lparr>path = ''p'', modVersion = ''v1'', goVersion = ''go1''\<rparr>]) \<and>
   valid \<lparr>path = ''p'', modVersion = ''v1'', goVersion = ''go1''\<rparr> \<and>
   inspectGobin ''/b''
     (Inr (''/b/x: go1'' @ CHR 0x0A # ''path p'' @ CHR 0x0A # ''mod m v1'' @ CHR 0x0A #
           ''/b/y: go1'' @ CHR 0x0A # replicate 65536 (CHR ''z''))) = Inl ErrTooLong"
proof -
  have "inspectGobin ''/b''
     (Inr (''/b/x: go1'' @ CHR 0x0A # ''path p'' @ CHR 0x0A # ''mod m v1'' @ CHR 0x0A #
           ''/b/y: go1'' @ CHR 0x0A # replicate 65536 (CHR ''z''))) = Inl ErrTooLong"
    unfolding inspectGobin_def using scanLines_long_example scanLoop_long_example by simp
  with scanLoop_long_example show ?thesis by (simp add: valid_def)
qed

text \<open>
  Claim C4, amended. A record whose module version is \<open>(devel)\<close> is never rebuilt: it
  is planned SkipUnrebuildable, and its path is appended to \<open>skipped\<close>, when \<open>upgrade\<close> is
  true or its toolchain version differs from the active one; when \<open>upgrade\<close> is false
  and the versions are equal it is planned Skip, by the first rule, and nothing is
  recorded.
\<close>

theorem devel_record_is_skipped:
  assumes "modVersion p = ''(devel)''"
  shows "runItem w upgrade gover p st =
           Inr (if \<not> upgrade \<and> goVersion p = gover then st
                else st\<lparr>skipped := skipped st @ [path p]\<rparr>) \<and>
         fst (planItem upgrade gover p) =
           (if \<not> upgrade \<and> goVersion p = gover then Skip else SkipUnrebuildable) \<and>
         \<not> needsRebuild upgrade gover p"
  using assms by (auto simp: runItem_def planItem_def needsRebuild_iff)

text \<open>
  The theorem at a \<open>(devel)\<close> record, with \<open>upgrade\<close> true and with a different
  toolchain version.
\<close>

theorem devel_record_is_skipped_witness:
  "modVersion \<lparr>path = ''ex.com/beta'', modVersion = ''(devel)'', goVersion = ''go1.19''\<rparr> = ''(devel)'' \<and>
   runItem exampleWorld True ''go1.19''
     \<lparr>path = ''ex.com/beta'', modVersion = ''(devel)'', goVersion = ''go1.19''\<rparr> initState =
     Inr \<lparr>skipped = [''ex.com/beta''], failed = [], tempDir = [], effects = []\<rparr> \<and>
   runItem exampleWorld False ''go1.21''
     \<lparr>path = ''ex.com/beta'', modVersion = ''(devel)'', goVersion = ''go1.19''\<rparr> initState =
     Inr \<lparr>skipped = [''ex.com/beta''], failed = [], tempDir = [], effects = []\<rparr>"
  using devel_record_is_skipped
          [of "\<lparr>path = ''ex.com/beta'', modVersion = ''(devel)'', goVersion = ''go1.19''\<rparr>"
              exampleWorld True "''go1.19''" initState]
        devel_record_is_skipped
          [of "\<lparr>path = ''ex.com/beta'', modVersion = ''(devel)'', goVersion = ''go1.19''\<rparr>"
              exampleWorld False "''go1.21''" initState]
  by (simp add: initState_def)

text \<open>
  Claim C4 as first stated has SkipUnrebuildable also where the toolchain versions are
  equal. With \<open>upgrade\<close> false the loop takes the first branch there: the state is
  unchanged and the plan is Skip.
\<close>

theorem devel_record_with_matching_toolchain:
  "valid \<lparr>path = ''ex.com/beta'', modVersion = ''(devel)'', goVersion = ''go1.20''\<rparr> \<and>
   runItem exampleWorld False ''go1.20''
     \<lparr>path = ''ex.com/beta'', modVersion = ''(devel)'', goVersion = ''go1.20''\<rparr> initState =
     Inr initState \<and>
   planItem False ''go1.20''
     \<lparr>path = ''ex.com/beta'', modVersion = ''(devel)'', goVersion = ''go1.20''\<rparr> = (Skip, [])"
  by (simp add: valid_def runItem_def planItem_def)

text \<open>
  Claim C5. On a line that is not a boundary line the parser splits the line into
  fields at white space; with exactly two fields, the first being \<open>path\<close>, the second
  becomes the path of the candidate; with three fields or more, the first being \<open>mod\<close>,
  the third becomes its module version; otherwise the candidate is unchanged. Nothing
  is appended to \<open>out\<close>. The fields are not empty and hold no white space of ASCII.
\<close>

theorem field_line_sets_path_or_version:
  assumes "\<not> HasPrefix line dir"
  shows "scanStep dir line (current, out) =
           Inr (if length (Fields line) = 2 \<and> Fields line ! 0 = ''path''
                  then current\<lparr>path := Fields line ! 1\<rparr>
                else if 3 \<le> length (Fields line) \<and> Fields line ! 0 = ''mod''
                  then current\<lparr>modVersion := Fields line ! 2\<rparr>
                else current, out) \<and>
         (\<forall>f\<in>set (Fields line). f \<noteq> [] \<and> (\<forall>c\<in>set f. \<not> asciiSpace c))"
  using scanStep_field [OF assms, of current out] Fields_tokens [of line]
  by (simp add: fieldLine_def)

text \<open>
  The theorem at a \<open>mod\<close> line, a \<open>path\<close> line and a \<open>dep\<close> line.
\<close>

theorem field_line_sets_path_or_version_witness:
  "\<not> HasPrefix (CHR 0x09 # ''mod'' @ CHR 0x09 # ''ex.com/x'' @ CHR 0x09 # ''v1.2.0'' @ CHR 0x09 # ''h1:uo='') ''/go/bin'' \<and>
   scanStep ''/go/bin'' (CHR 0x09 # ''mod'' @ CHR 0x09 # ''ex.com/x'' @ CHR 0x09 # ''v1.2.0'' @ CHR 0x09 # ''h1:uo='')
     (\<lparr>path = ''ex.com/x/cmd'', modVersion = [], goVersion = ''go1.20''\<rparr>, []) =
     Inr (\<lparr>path = ''ex.com/x/cmd'', modVersion = ''v1.2.0'', goVersion = ''go1.20''\<rparr>, []) \<and>
   \<not> HasPrefix (CHR 0x09 # ''path'' @ CHR 0x09 # ''ex.com/x/cmd'') ''/go/bin'' \<and>
   scanStep ''/go/bin'' (CHR 0x09 # ''path'' @ CHR 0x09 # ''ex.com/x/cmd'')
     (\<lparr>path = [], modVersion = [], goVersion = ''go1.20''\<rparr>, []) =
     Inr (\<lparr>path = ''ex.com/x/cmd'', modVersion = [], goVersion = ''go1.20''\<rparr>, []) \<and>
   \<not> HasPrefix (CHR 0x09 # ''dep'' @ CHR 0x09 # ''ex.com/y'' @ CHR 0x09 # ''v0.1.0'') ''/go/bin'' \<and>
   scanStep ''/go/bin'' (CHR 0x09 # ''dep'' @ CHR 0x09 # ''ex.com/y'' @ CHR 0x09 # ''v0.1.0'')
     (\<lparr>path = ''ex.com/x/cmd'', modVersion = ''v1.2.0'', goVersion = ''go1.20''\<rparr>, []) =
     Inr (\<lparr>path = ''ex.com/x/cmd'', modVersion = ''v1.2.0'', goVersion = ''go1.20''\<rparr>, [])"
proof -
  let ?m = "CHR 0x09 # ''mod'' @ CHR 0x09 # ''ex.com/x'' @ CHR 0x09 # ''v1.2.0'' @ CHR 0x09 # ''h1:uo=''"
  let ?p = "CHR 0x09 # ''path'' @ CHR 0x09 # ''ex.com/x/cmd''"
  let ?d = "CHR 0x09 # ''dep'' @ CHR 0x09 # ''ex.com/y'' @ CHR 0x09 # ''v0.1.0''"
  have m: "\<not> HasPrefix ?m ''/go/bin''" and p: "\<not> HasPrefix ?p ''/go/bin''"
    and d: "\<not> HasPrefix ?d ''/go/bin''"
    by (simp_all add: HasPrefix_def)
  from field_line_sets_path_or_version [OF m, of "\<lparr>path = ''ex.com/x/cmd'', modVersion = [], goVersion = ''go1.20''\<rparr>" "[]"]
  have a: "scanStep ''/go/bin'' ?m (\<lparr>path = ''ex.com/x/cmd'', modVersion = [], goVersion = ''go1.20''\<rparr>, []) =
     Inr (\<lparr>path = ''ex.com/x/cmd'', modVersion = ''v1.2.0'', goVersion = ''go1.20''\<rparr>, [])"
    unfolding Fields_mod_example by simp
  from field_line_sets_path_or_version [OF p, of "\<lparr>path = [], modVersion = [], goVersion = ''go1.20''\<rparr>" "[]"]
  have b: "scanStep ''/go/bin'' ?p (\<lparr>path = [], modVersion = [], goVersion = ''go1.20''\<rparr>, []) =
     Inr (\<lparr>path = ''ex.com/x/cmd'', modVersion = [], goVersion = ''go1.20''\<rparr>, [])"
    unfolding Fields_path_example by simp
  from field_line_sets_path_or_version [OF d, of "\<lparr>path = ''ex.com/x/cmd'', modVersion = ''v1.2.0'', goVersion = ''go1.20''\<rparr>" "[]"]
  have c: "scanStep ''/go/bin'' ?d (\<lparr>path = ''ex.com/x/cmd'', modVersion = ''v1.2.0'', goVersion = ''go1.20''\<rparr>, []) =
     Inr (\<lparr>path = ''ex.com/x/cmd'', modVersion = ''v1.2.0'', goVersion = ''go1.20''\<rparr>, [])"
    unfolding Fields_dep_example by simp
  from m a p b d c show ?thesis by blast
qed

text \<open>
  Claim C6, amended. \<open>rebuild\<close> returns an error without running \<open>go install\<close> exactly
  when the specification is empty or holds no \<open>@\<close>. Every other specification, with one
  \<open>@\<close> or with several, is logged and passed to \<open>go install\<close> in the temporary
  directory, and \<open>rebuild\<close> returns what the command returns.
\<close>

theorem rebuild_guards_spec:
  "((\<exists>e. rebuild w tmp spec effs = (Some e, effs)) \<longleftrightarrow> (spec = [] \<or> CHR ''@'' \<notin> set spec)) \<and>
   (spec \<noteq> [] \<and> CHR ''@'' \<in> set spec \<longrightarrow>
      rebuild w tmp spec effs =
        (installResult w (installCount effs) tmp spec,
         effs @ [Println (''running: '' @ goCommand w @ '' install '' @ spec), GoInstall tmp spec]))"
  by (auto simp: rebuild_def installEffects_def)

text \<open>
  The theorem at a specification with one \<open>@\<close>.
\<close>

theorem rebuild_guards_spec_witness:
  "''ex.com/a@v1'' \<noteq> [] \<and> CHR ''@'' \<in> set ''ex.com/a@v1'' \<and>
   rebuild exampleWorld ''/tmp/d'' ''ex.com/a@v1'' [] =
     (None, [Println ''running: go install ex.com/a@v1'', GoInstall ''/tmp/d'' ''ex.com/a@v1''])"
  using rebuild_guards_spec [of exampleWorld "''/tmp/d''" "''ex.com/a@v1''" "[]"]
  by (simp add: exampleWorld_def installCount_def)

text \<open>
  Claim C6 as first stated rejects a specification that does not hold exactly one
  \<open>@\<close>. This one holds two, and \<open>rebuild\<close> runs \<open>go install\<close> on it and returns no error.
\<close>

theorem rebuild_accepts_two_delimiters:
  "count_list ''a@b@c'' (CHR ''@'') = 2 \<and>
   rebuild exampleWorld ''/tmp/d'' ''a@b@c'' [] =
     (None, [Println ''running: go install a@b@c'', GoInstall ''/tmp/d'' ''a@b@c''])"
  by (simp add: rebuild_def installEffects_def exampleWorld_def installCount_def)

text \<open>
  Claim C7. Let the loop have reached the program \<open>p\<close> in the state \<open>st\<close>, let \<open>p\<close> be
  planned for a rebuild, let the temporary directory exist or be created, and let
  \<open>rebuild\<close> return an error. Then the iteration appends the path of \<open>p\<close> to \<open>failed\<close> and
  the loop goes on through all the programs \<open>qs\<close> that follow: each one planned for a
  rebuild is installed, each unrebuildable one is recorded, \<open>run\<close> returns no error, and
  the report it prints has the section of the failed installs with the path of \<open>p\<close>.
\<close>

theorem failed_rebuild_does_not_halt:
  assumes "runLoop w upgrade gover ps initState = Inr st"
    and "needsRebuild upgrade gover p"
    and "scratchDir w st = Inr st1"
    and "fst (rebuild w (tempDir st1) (rebuildSpec upgrade gover p) (effects st1)) \<noteq> None"
  shows "\<exists>st2 final.
     runItem w upgrade gover p st = Inr st2 \<and> failed st2 = failed st @ [path p] \<and>
     runLoop w upgrade gover qs st2 = Inr final \<and>
     runLoop w upgrade gover (ps @ p # qs) initState = Inr final \<and>
     path p \<in> set (failed final) \<and>
     skipped final = skipped st2 @ map path (filter (unrebuildable upgrade gover) qs) \<and>
     filter isGoInstall (effects final) =
       filter isGoInstall (effects st2) @
       map (\<lambda>q. GoInstall (tempDir st2) (rebuildSpec upgrade gover q))
         (filter (needsRebuild upgrade gover) qs) \<and>
     runPrograms w upgrade gover (ps @ p # qs) =
       (None, effects final @ map Println (report (skipped final) (failed final)) @
              [RemoveAll (tempDir final)]) \<and>
     ''There were errors installing the following modules, see the full log above:''
       \<in> set (report (skipped final) (failed final)) \<and>
     ''  '' @ path p \<in> set (report (skipped final) (failed final))"
proof -
  let ?r = "rebuild w (tempDir st1) (rebuildSpec upgrade gover p) (effects st1)"
  let ?st2 = "st1\<lparr>failed := failed st1 @ [path p], effects := snd ?r\<rparr>"
  have dir: "tempDir st1 \<noteq> []" and same: "failed st1 = failed st"
    using assms(3) by (auto simp: scratchDir_def osMkdirTemp_nonempty split: if_splits sum.splits)
  have ex: "executeItem w (path p) (planItem upgrade gover p) st =
      executeRebuild w (path p) (snd (planItem upgrade gover p)) st"
    using assms(2) by (cases "planItem upgrade gover p") (auto simp: needsRebuild_def isRebuild_def)
  have step: "runItem w upgrade gover p st = Inr ?st2"
    unfolding runItem_execute ex using assms(3,4)
    by (cases ?r) (auto simp: executeRebuild_def rebuildSpec_def)
  have "tempDir ?st2 \<noteq> []" using dir by simp
  from runLoop_with_dir [OF this, of w upgrade gover qs] obtain final where
    l: "runLoop w upgrade gover qs ?st2 = Inr final" and td: "tempDir final = tempDir ?st2" and
    s: "skipped final = skipped ?st2 @ map path (filter (unrebuildable upgrade gover) qs)" and
    e: "effects final = effects ?st2 @
          concat (map (\<lambda>p. installEffects w (tempDir ?st2) (rebuildSpec upgrade gover p))
                    (filter (needsRebuild upgrade gover) qs))" and
    f: "failed final = failed ?st2 @
          map (path \<circ> snd)
            (filter (\<lambda>(k, p). installResult w k (tempDir ?st2) (rebuildSpec upgrade gover p) \<noteq> None)
               (enumerate (installCount (effects ?st2)) (filter (needsRebuild upgrade gover) qs)))"
    by blast
  have whole: "runLoop w upgrade gover (ps @ p # qs) initState = Inr final"
    using assms(1) step l by (simp add: runLoop_append)
  have mem: "path p \<in> set (failed final)" unfolding f by simp
  have inst: "filter isGoInstall (effects final) =
       filter isGoInstall (effects ?st2) @
       map (\<lambda>q. GoInstall (tempDir ?st2) (rebuildSpec upgrade gover q))
         (filter (needsRebuild upgrade gover) qs)"
    unfolding e by (induction qs) (simp_all add: installEffects_def)
  have run: "runPrograms w upgrade gover (ps @ p # qs) =
       (None, effects final @ map Println (report (skipped final) (failed final)) @
              [RemoveAll (tempDir final)])"
    using whole td dir by (simp add: runPrograms_def)
  from mem have ne: "failed final \<noteq> []" by auto
  have hdr: "''There were errors installing the following modules, see the full log above:''
       \<in> set (report (skipped final) (failed final))"
    using ne by (simp add: report_sections)
  have item: "''  '' @ path p \<in> set (report (skipped final) (failed final))"
    using mem ne by (simp add: report_sections)
  from step same l whole mem s inst run hdr item show ?thesis
    by (intro exI [of _ ?st2] exI [of _ final]) simp
qed

text \<open>
  The theorem in a run of three programs in which the second install fails.
\<close>

theorem failed_rebuild_does_not_halt_witness:
  "runLoop exampleWorld False ''go1.21''
     [\<lparr>path = ''a'', modVersion = ''v1'', goVersion = ''go1.20''\<rparr>] initState =
   Inr \<lparr>skipped = [], failed = [], tempDir = ''/tmp/rebuild-gobin-42'',
        effects = [MkdirTemp ''/tmp/rebuild-gobin-42'', Println ''running: go install a@v1'',
                   GoInstall ''/tmp/rebuild-gobin-42'' ''a@v1'']\<rparr> \<and>
   needsRebuild False ''go1.21'' \<lparr>path = ''c'', modVersion = ''v2'', goVersion = ''go1.20''\<rparr> \<and>
   fst (rebuild exampleWorld ''/tmp/rebuild-gobin-42'' ''c@v2''
      [MkdirTemp ''/tmp/rebuild-gobin-42'', Println ''running: go install a@v1'',
       GoInstall ''/tmp/rebuild-gobin-42'' ''a@v1'']) \<noteq> None \<and>
   runPrograms exampleWorld False ''go1.21''
     [\<lparr>path = ''a'', modVersion = ''v1'', goVersion = ''go1.20''\<rparr>,
      \<lparr>path = ''c'', modVersion = ''v2'', goVersion = ''go1.20''\<rparr>,
      \<lparr>path = ''d'', modVersion = ''v3'', goVersion = ''go1.19''\<rparr>] =
   (None,
    [MkdirTemp ''/tmp/rebuild-gobin-42'',
     Println ''running: go install a@v1'', GoInstall ''/tmp/rebuild-gobin-42'' ''a@v1'',
     Println ''running: go install c@v2'', GoInstall ''/tmp/rebuild-gobin-42'' ''c@v2'',
     Println ''running: go install d@v3'', GoInstall ''/tmp/rebuild-gobin-42'' ''d@v3'',
     Println ''There were errors installing the following modules, see the full log above:'',
     Println ''  c'',
     RemoveAll ''/tmp/rebuild-gobin-42''])"
proof -
  let ?a = "\<lparr>path = ''a'', modVersion = ''v1'', goVersion = ''go1.20''\<rparr>"
  let ?c = "\<lparr>path = ''c'', modVersion = ''v2'', goVersion = ''go1.20''\<rparr>"
  let ?d = "\<lparr>path = ''d'', modVersion = ''v3'', goVersion = ''go1.19''\<rparr>"
  let ?effs = "[MkdirTemp ''/tmp/rebuild-gobin-42'', Println ''running: go install a@v1'',
                GoInstall ''/tmp/rebuild-gobin-42'' ''a@v1'']"
  let ?st = "\<lparr>skipped = [], failed = [], tempDir = ''/tmp/rebuild-gobin-42'', effects = ?effs\<rparr>"
  note h1 = example_loop_first
  have h2: "needsRebuild False ''go1.21'' ?c" by (simp add: needsRebuild_iff)
  have h3: "scratchDir exampleWorld ?st = Inr ?st" by (simp add: scratchDir_def)
  have sp: "rebuildSpec False ''go1.21'' ?c = ''c@v2''" by (simp add: rebuildSpec_def planItem_def)
  have r: "fst (rebuild exampleWorld ''/tmp/rebuild-gobin-42'' ''c@v2'' ?effs) \<noteq> None"
    by (simp add: rebuild_def installCount_def exampleWorld_def)
  then have h4: "fst (rebuild exampleWorld (tempDir ?st) (rebuildSpec False ''go1.21'' ?c) (effects ?st)) \<noteq> None"
    by (simp add: sp)
  from failed_rebuild_does_not_halt [OF h1 h2 h3 h4, of "[?d]"] obtain st2 final where
    s2: "runItem exampleWorld False ''go1.21'' ?c ?st = Inr st2" and
    fin: "runLoop exampleWorld False ''go1.21'' [?d] st2 = Inr final" and
    run: "runPrograms exampleWorld False ''go1.21'' ([?a] @ ?c # [?d]) =
       (None, effects final @ map Println (report (skipped final) (failed final)) @
              [RemoveAll (tempDir final)])"
    by (elim exE conjE)
  have "runItem exampleWorld False ''go1.21'' ?c ?st =
      Inr (?st\<lparr>failed := [''c''],
               effects := ?effs @ [Println ''running: go install c@v2'',
                                   GoInstall ''/tmp/rebuild-gobin-42'' ''c@v2'']\<rparr>)"
    by (simp add: runItem_def Let_def rebuild_def installEffects_def installCount_def exampleWorld_def)
  with s2 have st2: "st2 = ?st\<lparr>failed := [''c''],
               effects := ?effs @ [Println ''running: go install c@v2'',
                                   GoInstall ''/tmp/rebuild-gobin-42'' ''c@v2'']\<rparr>"
    by simp
  have "runLoop exampleWorld False ''go1.21'' [?d] st2 =
      Inr (st2\<lparr>effects := effects st2 @ [Println ''running: go install d@v3'',
                                           GoInstall ''/tmp/rebuild-gobin-42'' ''d@v3'']\<rparr>)"
    unfolding st2
    by (simp add: runItem_def Let_def rebuild_def installEffects_def installCount_def exampleWorld_def)
  with fin have final: "final = st2\<lparr>effects := effects st2 @ [Println ''running: go install d@v3'',
                                           GoInstall ''/tmp/rebuild-gobin-42'' ''d@v3'']\<rparr>"
    by simp
  have "runPrograms exampleWorld False ''go1.21'' [?a, ?c, ?d] =
   (None,
    [MkdirTemp ''/tmp/rebuild-gobin-42'',
     Println ''running: go install a@v1'', GoInstall ''/tmp/rebuild-gobin-42'' ''a@v1'',
     Println ''running: go install c@v2'', GoInstall ''/tmp/rebuild-gobin-42'' ''c@v2'',
     Println ''running: go install d@v3'', GoInstall ''/tmp/rebuild-gobin-42'' ''d@v3'',
     Println ''There were errors installing the following modules, see the full log above:'',
     Println ''  c'',
     RemoveAll ''/tmp/rebuild-gobin-42''])"
    using run unfolding final st2 by (simp add: report_def)
  then show ?thesis
    apply (intro conjI)
       apply (rule h1)
      apply (rule h2)
     apply (rule r)
    apply assumption
    done
qed

text \<open>
  Claim C8. The report is the section of the skipped programs, when there is one, then
  the section of the failed installs, when there is one; the heading of a section is
  printed exactly when its sequence is not empty, and nothing is printed when both are
  empty. \<open>run\<close> prints the report after the effects of the loop and returns no error.
\<close>

theorem report_prints_nonempty_sections:
  "report sk fl =
     (if sk = [] then []
      else ''Skipped the following programs because of the (devel) module version:'' #
           map (\<lambda>s. ''  '' @ s) sk) @
     (if fl = [] then []
      else ''There were errors installing the following modules, see the full log above:'' #
           map (\<lambda>s. ''  '' @ s) fl) \<and>
   (''Skipped the following programs because of the (devel) module version:'' \<in> set (report sk fl)
      \<longleftrightarrow> sk \<noteq> []) \<and>
   (''There were errors installing the following modules, see the full log above:'' \<in> set (report sk fl)
      \<longleftrightarrow> fl \<noteq> []) \<and>
   report [] [] = [] \<and>
   (runLoop w upgrade gover programs initState = Inr st \<longrightarrow>
      runPrograms w upgrade gover programs =
        (None, effects st @ map Println (report (skipped st) (failed st)) @
               (if tempDir st = [] then [] else [RemoveAll (tempDir st)])))"
proof -
  have "runLoop w upgrade gover programs initState = Inr st \<longrightarrow>
      runPrograms w upgrade gover programs =
        (None, effects st @ map Println (report (skipped st) (failed st)) @
               (if tempDir st = [] then [] else [RemoveAll (tempDir st)]))"
    by (simp add: runPrograms_def)
  then show ?thesis unfolding report_sections by auto
qed

text \<open>
  The theorem in a run whose only program was built with the active toolchain.
\<close>

theorem report_prints_nonempty_sections_witness:
  "runLoop exampleWorld False ''go1.21''
     [\<lparr>path = ''a'', modVersion = ''v1'', goVersion = ''go1.21''\<rparr>] initState = Inr initState \<and>
   runPrograms exampleWorld False ''go1.21''
     [\<lparr>path = ''a'', modVersion = ''v1'', goVersion = ''go1.21''\<rparr>] = (None, [])"
proof -
  have l: "runLoop exampleWorld False ''go1.21''
     [\<lparr>path = ''a'', modVersion = ''v1'', goVersion = ''go1.21''\<rparr>] initState = Inr initState"
    by (simp add: runItem_def)
  from report_prints_nonempty_sections
         [of "[]" "[]" exampleWorld False "''go1.21''"
             "[\<lparr>path = ''a'', modVersion = ''v1'', goVersion = ''go1.21''\<rparr>]" initState] l
  have "runPrograms exampleWorld False ''go1.21''
     [\<lparr>path = ''a'', modVersion = ''v1'', goVersion = ''go1.21''\<rparr>] = (None, [])"
    by (simp add: initState_def report_def)
  with l show ?thesis by simp
qed

text \<open>
  Claim C9. \<open>os.MkdirTemp\<close> creates a directory at most once in a run: exactly once
  when some program is planned for a rebuild and \<open>os.MkdirTemp\<close> succeeds, and not at all
  when no program is planned for a rebuild. It is created at the first program planned
  for a rebuild: the loop over the programs before it leaves \<open>tempDir\<close> empty and has no
  effect, the iteration on that program creates the directory and then runs the install
  in it, and the loop over all the programs ends with that directory, its creation
  being the first effect of the run, followed by the installs of all the programs
  planned for a rebuild and, after the report, by its removal. \<open>run\<close> is \<open>runPrograms\<close> on
  the programs that \<open>inspectGobin\<close> returns.
\<close>

theorem scratch_dir_created_lazily_once:
  "length (filter isMkdirTemp (snd (run w upgrade))) \<le> 1 \<and>
   length (filter isMkdirTemp (snd (runPrograms w upgrade gover programs))) \<le> 1 \<and>
   filter isMkdirTemp (snd (runPrograms w upgrade gover programs)) =
     (if \<exists>p\<in>set programs. needsRebuild upgrade gover p
      then (case osMkdirTemp w of Inl e \<Rightarrow> [] | Inr d \<Rightarrow> [MkdirTemp d])
      else []) \<and>
   ((\<forall>p\<in>set programs. \<not> needsRebuild upgrade gover p) \<longrightarrow>
      filter isMkdirTemp (snd (runPrograms w upgrade gover programs)) = []) \<and>
   (gobinResult w = Inr gobin \<and> inspectGobin gobin (versionOutput w gobin) = Inr programs \<and>
    goverResult w = Inr gover \<longrightarrow>
      run w upgrade = runPrograms w upgrade gover programs) \<and>
   (\<forall>ps p qs d.
      programs = ps @ p # qs \<and> (\<forall>q\<in>set ps. \<not> needsRebuild upgrade gover q) \<and>
      needsRebuild upgrade gover p \<and> osMkdirTemp w = Inr d \<longrightarrow>
      (\<exists>st st' final.
         runLoop w upgrade gover ps initState = Inr st \<and> tempDir st = [] \<and> effects st = [] \<and>
         runItem w upgrade gover p st = Inr st' \<and> tempDir st' = d \<and>
         effects st' = MkdirTemp d # installEffects w d (rebuildSpec upgrade gover p) \<and>
         runLoop w upgrade gover qs st' = Inr final \<and>
         runLoop w upgrade gover programs initState = Inr final \<and>
         tempDir final = d \<and>
         effects final =
           MkdirTemp d #
           concat (map (\<lambda>q. installEffects w d (rebuildSpec upgrade gover q))
                     (filter (needsRebuild upgrade gover) programs)) \<and>
         runPrograms w upgrade gover programs =
           (None, effects final @ map Println (report (skipped final) (failed final)) @
                  [RemoveAll d])))"
proof (intro conjI allI impI)
  have once: "\<And>g ps. length (filter isMkdirTemp (snd (runPrograms w upgrade g ps))) \<le> 1"
    unfolding runPrograms_mkdirs by (simp split: sum.splits)
  then show "length (filter isMkdirTemp (snd (runPrograms w upgrade gover programs))) \<le> 1" .
  from once show "length (filter isMkdirTemp (snd (run w upgrade))) \<le> 1"
    by (simp add: run_def split: sum.splits)
next
  show "filter isMkdirTemp (snd (runPrograms w upgrade gover programs)) =
     (if \<exists>p\<in>set programs. needsRebuild upgrade gover p
      then (case osMkdirTemp w of Inl e \<Rightarrow> [] | Inr d \<Rightarrow> [MkdirTemp d])
      else [])"
    by (rule runPrograms_mkdirs)
next
  assume "\<forall>p\<in>set programs. \<not> needsRebuild upgrade gover p"
  then show "filter isMkdirTemp (snd (runPrograms w upgrade gover programs)) = []"
    unfolding runPrograms_mkdirs by simp
next
  assume "gobinResult w = Inr gobin \<and> inspectGobin gobin (versionOutput w gobin) = Inr programs \<and>
    goverResult w = Inr gover"
  then show "run w upgrade = runPrograms w upgrade gover programs"
    by (simp add: run_def)
next
  fix ps p qs d
  assume h: "programs = ps @ p # qs \<and> (\<forall>q\<in>set ps. \<not> needsRebuild upgrade gover q) \<and>
      needsRebuild upgrade gover p \<and> osMkdirTemp w = Inr d"
  let ?st = "initState\<lparr>skipped := skipped initState @ map path (filter (unrebuildable upgrade gover) ps)\<rparr>"
  let ?sd = "?st\<lparr>tempDir := d, effects := effects ?st @ [MkdirTemp d]\<rparr>"
  from h have l: "runLoop w upgrade gover ps initState = Inr ?st"
    by (simp add: runLoop_no_rebuild)
  have t: "tempDir ?st = []" and e: "effects ?st = []" by (simp_all add: initState_def)
  from h have nr: "needsRebuild upgrade gover p" and mk: "osMkdirTemp w = Inr d"
    and pr: "programs = ps @ p # qs" and none: "\<forall>q\<in>set ps. \<not> needsRebuild upgrade gover q"
    by simp_all
  from mk have dne: "d \<noteq> []" by (rule osMkdirTemp_nonempty)
  then have "tempDir ?sd \<noteq> []" by simp
  from runItem_rebuild [OF nr this, of w] runItem_rebuild_mkdir [OF nr t, of w] mk
  obtain st' where
    item: "runItem w upgrade gover p ?st = Inr st'" and td: "tempDir st' = d" and
    ef: "effects st' = effects ?sd @ installEffects w (tempDir ?sd) (rebuildSpec upgrade gover p)"
    by simp
  from ef e have ef': "effects st' = MkdirTemp d # installEffects w d (rebuildSpec upgrade gover p)"
    by simp
  have "tempDir st' \<noteq> []" using td dne by simp
  from runLoop_with_dir [OF this, of w upgrade gover qs] obtain final where
    rest: "runLoop w upgrade gover qs st' = Inr final" and tf: "tempDir final = tempDir st'" and
    eff: "effects final = effects st' @
       concat (map (\<lambda>q. installEffects w (tempDir st') (rebuildSpec upgrade gover q))
                 (filter (needsRebuild upgrade gover) qs))"
    by blast
  have whole: "runLoop w upgrade gover programs initState = Inr final"
    unfolding pr using l item rest by (simp add: runLoop_append)
  have "filter (needsRebuild upgrade gover) ps = []" using none by simp
  then have fl: "filter (needsRebuild upgrade gover) programs =
      p # filter (needsRebuild upgrade gover) qs"
    unfolding pr using nr by simp
  have effs: "effects final =
      MkdirTemp d #
      concat (map (\<lambda>q. installEffects w d (rebuildSpec upgrade gover q))
                (filter (needsRebuild upgrade gover) programs))"
    unfolding fl eff ef' td by simp
  have run: "runPrograms w upgrade gover programs =
      (None, effects final @ map Println (report (skipped final) (failed final)) @ [RemoveAll d])"
    using whole tf td dne by (simp add: runPrograms_def)
  from l t e item td ef' rest whole tf effs run
  show "\<exists>st st' final.
         runLoop w upgrade gover ps initState = Inr st \<and> tempDir st = [] \<and> effects st = [] \<and>
         runItem w upgrade gover p st = Inr st' \<and> tempDir st' = d \<and>
         effects st' = MkdirTemp d # installEffects w d (rebuildSpec upgrade gover p) \<and>
         runLoop w upgrade gover qs st' = Inr final \<and>
         runLoop w upgrade gover programs initState = Inr final \<and>
         tempDir final = d \<and>
         effects final =
           MkdirTemp d #
           concat (map (\<lambda>q. installEffects w d (rebuildSpec upgrade gover q))
                     (filter (needsRebuild upgrade gover) programs)) \<and>
         runPrograms w upgrade gover programs =
           (None, effects final @ map Println (report (skipped final) (failed final)) @
                  [RemoveAll d])"
    by (intro exI [of _ ?st] exI [of _ st'] exI [of _ final]) simp
qed

text \<open>
  The theorem in a run of a \<open>(devel)\<close> program followed by a program to rebuild, and in
  a run that reads one program to rebuild from the output of \<open>go version -m\<close>.
\<close>

theorem scratch_dir_created_lazily_once_witness:
  "\<not> needsRebuild False ''go1.21'' \<lparr>path = ''b'', modVersion = ''(devel)'', goVersion = ''go1.20''\<rparr> \<and>
   filter isMkdirTemp (snd (runPrograms exampleWorld False ''go1.21''
     [\<lparr>path = ''b'', modVersion = ''(devel)'', goVersion = ''go1.20''\<rparr>])) = [] \<and>
   needsRebuild False ''go1.21'' \<lparr>path = ''a'', modVersion = ''v1'', goVersion = ''go1.20''\<rparr> \<and>
   osMkdirTemp exampleWorld = Inr ''/tmp/rebuild-gobin-42'' \<and>
   filter isMkdirTemp (snd (runPrograms exampleWorld False ''go1.21''
     [\<lparr>path = ''b'', modVersion = ''(devel)'', goVersion = ''go1.20''\<rparr>,
      \<lparr>path = ''a'', modVersion = ''v1'', goVersion = ''go1.20''\<rparr>])) =
     [MkdirTemp ''/tmp/rebuild-gobin-42''] \<and>
   (\<exists>st st'.
      runLoop exampleWorld False ''go1.21''
        [\<lparr>path = ''b'', modVersion = ''(devel)'', goVersion = ''go1.20''\<rparr>] initState = Inr st \<and>
      tempDir st = [] \<and> effects st = [] \<and>
      runItem exampleWorld False ''go1.21''
        \<lparr>path = ''a'', modVersion = ''v1'', goVersion = ''go1.20''\<rparr> st = Inr st' \<and>
      tempDir st' = ''/tmp/rebuild-gobin-42'' \<and>
      effects st' =
        [MkdirTemp ''/tmp/rebuild-gobin-42'', Println ''running: go install a@v1'',
         GoInstall ''/tmp/rebuild-gobin-42'' ''a@v1'']) \<and>
   runPrograms exampleWorld False ''go1.21''
     [\<lparr>path = ''b'', modVersion = ''(devel)'', goVersion = ''go1.20''\<rparr>,
      \<lparr>path = ''a'', modVersion = ''v1'', goVersion = ''go1.20''\<rparr>] =
     (None,
      [MkdirTemp ''/tmp/rebuild-gobin-42'', Println ''running: go install a@v1'',
       GoInstall ''/tmp/rebuild-gobin-42'' ''a@v1'',
       Println ''Skipped the following programs because of the (devel) module version:'',
       Println ''  b'', RemoveAll ''/tmp/rebuild-gobin-42'']) \<and>
   run (exampleWorld\<lparr>versionOutput := \<lambda>d. Inr (''/go/bin/a: go1.20'' @ CHR 0x0A # ''path a'' @
          CHR 0x0A # ''mod m v1'' @ [CHR 0x0A])\<rparr>) False =
     (None,
      [MkdirTemp ''/tmp/rebuild-gobin-42'', Println ''running: go install a@v1'',
       GoInstall ''/tmp/rebuild-gobin-42'' ''a@v1'', RemoveAll ''/tmp/rebuild-gobin-42''])"
proof -
  let ?a = "\<lparr>path = ''a'', modVersion = ''v1'', goVersion = ''go1.20''\<rparr>"
  let ?b = "\<lparr>path = ''b'', modVersion = ''(devel)'', goVersion = ''go1.20''\<rparr>"
  let ?W = "exampleWorld\<lparr>versionOutput := \<lambda>d. Inr (''/go/bin/a: go1.20'' @ CHR 0x0A # ''path a'' @
          CHR 0x0A # ''mod m v1'' @ [CHR 0x0A])\<rparr>"
  have nb: "\<not> needsRebuild False ''go1.21'' ?b" by (simp add: needsRebuild_iff)
  have na: "needsRebuild False ''go1.21'' ?a" by (simp add: needsRebuild_iff)
  have mk: "osMkdirTemp exampleWorld = Inr ''/tmp/rebuild-gobin-42''"
    by (simp add: osMkdirTemp_def joinPath_def exampleWorld_def)
  have spec: "installEffects exampleWorld ''/tmp/rebuild-gobin-42'' (rebuildSpec False ''go1.21'' ?a) =
      [Println ''running: go install a@v1'', GoInstall ''/tmp/rebuild-gobin-42'' ''a@v1'']"
    by (simp add: installEffects_def rebuildSpec_def planItem_def exampleWorld_def)
  note thb = scratch_dir_created_lazily_once [of exampleWorld False "''go1.21''" "[?b]"]
  note th = scratch_dir_created_lazily_once [of exampleWorld False "''go1.21''" "[?b, ?a]"]
  from thb [THEN conjunct2, THEN conjunct2, THEN conjunct2, THEN conjunct1] nb
  have never: "filter isMkdirTemp (snd (runPrograms exampleWorld False ''go1.21'' [?b])) = []"
    by simp
  from th [THEN conjunct2, THEN conjunct2, THEN conjunct1] na mk
  have once: "filter isMkdirTemp (snd (runPrograms exampleWorld False ''go1.21'' [?b, ?a])) =
      [MkdirTemp ''/tmp/rebuild-gobin-42'']"
    by simp
  have prem: "[?b, ?a] = [?b] @ ?a # [] \<and> (\<forall>q\<in>set [?b]. \<not> needsRebuild False ''go1.21'' q) \<and>
      needsRebuild False ''go1.21'' ?a \<and> osMkdirTemp exampleWorld = Inr ''/tmp/rebuild-gobin-42''"
    using nb na mk by simp
  from th [THEN conjunct2, THEN conjunct2, THEN conjunct2, THEN conjunct2, THEN conjunct2,
      rule_format, OF prem]
  obtain st st' final where
    l: "runLoop exampleWorld False ''go1.21'' [?b] initState = Inr st" and
    t: "tempDir st = []" and e: "effects st = []" and
    i: "runItem exampleWorld False ''go1.21'' ?a st = Inr st'" and
    td: "tempDir st' = ''/tmp/rebuild-gobin-42''" and
    ef: "effects st' = MkdirTemp ''/tmp/rebuild-gobin-42'' #
        installEffects exampleWorld ''/tmp/rebuild-gobin-42'' (rebuildSpec False ''go1.21'' ?a)" and
    whole: "runLoop exampleWorld False ''go1.21'' [?b, ?a] initState = Inr final" and
    run: "runPrograms exampleWorld False ''go1.21'' [?b, ?a] =
      (None, effects final @ map Println (report (skipped final) (failed final)) @
             [RemoveAll ''/tmp/rebuild-gobin-42''])"
    by (elim exE conjE)
  from l t e i td ef
  have lazy: "\<exists>st st'. runLoop exampleWorld False ''go1.21'' [?b] initState = Inr st \<and>
      tempDir st = [] \<and> effects st = [] \<and>
      runItem exampleWorld False ''go1.21'' ?a st = Inr st' \<and>
      tempDir st' = ''/tmp/rebuild-gobin-42'' \<and>
      effects st' =
        [MkdirTemp ''/tmp/rebuild-gobin-42'', Println ''running: go install a@v1'',
         GoInstall ''/tmp/rebuild-gobin-42'' ''a@v1'']"
    unfolding spec by (intro exI [of _ st] exI [of _ st']) simp
  from whole example_loop_devel_first
  have final: "final = \<lparr>skipped = [''b''], failed = [], tempDir = ''/tmp/rebuild-gobin-42'',
        effects = [MkdirTemp ''/tmp/rebuild-gobin-42'', Println ''running: go install a@v1'',
                   GoInstall ''/tmp/rebuild-gobin-42'' ''a@v1'']\<rparr>"
    by simp
  have full: "runPrograms exampleWorld False ''go1.21'' [?b, ?a] =
     (None,
      [MkdirTemp ''/tmp/rebuild-gobin-42'', Println ''running: go install a@v1'',
       GoInstall ''/tmp/rebuild-gobin-42'' ''a@v1'',
       Println ''Skipped the following programs because of the (devel) module version:'',
       Println ''  b'', RemoveAll ''/tmp/rebuild-gobin-42''])"
    using run unfolding final by (simp add: report_def)
  have g: "gobinResult ?W = Inr ''/go/bin'' \<and>
      inspectGobin ''/go/bin'' (versionOutput ?W ''/go/bin'') = Inr [?a] \<and>
      goverResult ?W = Inr ''go1.21''"
    using example_inspect by (simp add: exampleWorld_def)
  from scratch_dir_created_lazily_once [of ?W False "''go1.21''" "[?a]" "''/go/bin''",
      THEN conjunct2, THEN conjunct2, THEN conjunct2, THEN conjunct2, THEN conjunct1,
      rule_format, OF g]
  have "run ?W False = runPrograms ?W False ''go1.21'' [?a]" .
  also have "\<dots> =
     (None,
      [MkdirTemp ''/tmp/rebuild-gobin-42'', Println ''running: go install a@v1'',
       GoInstall ''/tmp/rebuild-gobin-42'' ''a@v1'', RemoveAll ''/tmp/rebuild-gobin-42''])"
    by (simp add: runPrograms_def runItem_def Let_def rebuild_def installEffects_def
        installCount_def osMkdirTemp_def joinPath_def exampleWorld_def initState_def report_def)
  finally have runW: "run ?W False =
     (None,
      [MkdirTemp ''/tmp/rebuild-gobin-42'', Println ''running: go install a@v1'',
       GoInstall ''/tmp/rebuild-gobin-42'' ''a@v1'', RemoveAll ''/tmp/rebuild-gobin-42''])" .
  show ?thesis
    apply (intro conjI)
           apply (rule nb)
          apply (rule never)
         apply (rule na)
        apply (rule mk)
       apply (rule once)
      apply (rule lazy)
     apply (rule full)
    apply (rule runW)
    done
qed

text \<open>
  Claim C10. For a non-empty install directory, a line that begins with it and holds
  no \<open>": "\<close> does not make the parser fail: \<open>Index\<close> returns -1, the slice starts at index
  1, and the toolchain version of the new candidate is the line without its first
  byte.
\<close>

theorem boundary_without_separator:
  assumes "dir \<noteq> []" and "HasPrefix line dir" and "\<not> (\<exists>pre rest. line = pre @ '': '' @ rest)"
  shows "Index line '': '' + 2 = 1 \<and> line \<noteq> [] \<and>
         scanStep dir line (current, out) =
           Inr (\<lparr>path = [], modVersion = [], goVersion = tl line\<rparr>,
                if valid current then out @ [current] else out)"
proof -
  from assms(2,1) have ne: "line \<noteq> []" by (rule HasPrefix_nonempty)
  from assms(3) have i: "Index line '': '' = - 1" by (simp add: Index_none_iff)
  from scanStep_boundary [OF assms(2) ne, of current out] i ne show ?thesis
    by (simp add: boundaryCandidate_def drop_Suc)
qed

text \<open>
  The theorem at the line \<open>/go/bin/tool\<close>.
\<close>

theorem boundary_without_separator_witness:
  "''/go/bin'' \<noteq> [] \<and> HasPrefix ''/go/bin/tool'' ''/go/bin'' \<and>
   \<not> (\<exists>pre rest. ''/go/bin/tool'' = pre @ '': '' @ rest) \<and>
   scanStep ''/go/bin'' ''/go/bin/tool'' (zeroProgram, []) =
     Inr (\<lparr>path = [], modVersion = [], goVersion = ''go/bin/tool''\<rparr>, [])"
proof -
  have d: "''/go/bin'' \<noteq> []" by simp
  have p: "HasPrefix ''/go/bin/tool'' ''/go/bin''" by (simp add: HasPrefix_def)
  have n: "\<not> (\<exists>pre rest. ''/go/bin/tool'' = pre @ '': '' @ rest)"
    using Index_none_iff [of "''/go/bin/tool''" "'': ''"] by (simp add: HasPrefix_def)
  from boundary_without_separator [OF d p n, of zeroProgram "[]"]
  have "scanStep ''/go/bin'' ''/go/bin/tool'' (zeroProgram, []) =
     Inr (\<lparr>path = [], modVersion = [], goVersion = ''go/bin/tool''\<rparr>, [])"
    by (simp add: valid_def zeroProgram_def)
  with d p n show ?thesis by blast
qed

end
